theory Spec2Isabelle
  imports Complex_Main "HOL-Library.Multiset"
begin

section \<open>Numbers\<close>

text \<open>
  The TypeScript type \<open>number\<close> is modelled by \<open>real\<close>: the finite, non-NaN numbers,
  with exact arithmetic.  The remainder operator \<open>x % y\<close> of JavaScript truncates the
  quotient towards zero and keeps the sign of the dividend.
\<close>

definition js_trunc :: "real \<Rightarrow> int" where
  "js_trunc x = (if 0 \<le> x then \<lfloor>x\<rfloor> else \<lceil>x\<rceil>)"

definition js_rem :: "real \<Rightarrow> real \<Rightarrow> real" where
  "js_rem x y = x - y * of_int (js_trunc (x / y))"

section \<open>Core types (types.ts)\<close>

record ResidentBaseline =
  mobilityMean :: real
  mobilityVar :: real
  restlessnessMean :: real
  restlessnessVar :: real
  speechMean :: real
  speechVar :: real
  socialMean :: real
  socialVar :: real
  sleepStart :: real
  sleepEnd :: real

record RiskScores =
  fall :: real
  cognitive :: real
  loneliness :: real
  overall :: real

datatype UrgencyBand = Low | Medium | High

text \<open>The literal union type \<open>1 | 2 | 3 | 4\<close>, with the number each literal stands for.\<close>

datatype InterventionLevel = L1 | L2 | L3 | L4

fun level_num :: "InterventionLevel \<Rightarrow> nat" where
  "level_num L1 = 1"
| "level_num L2 = 2"
| "level_num L3 = 3"
| "level_num L4 = 4"

record ResidentProfile =
  age :: real
  name :: string
  mobilityBaseline :: real
  cognitiveConcernLevel :: UrgencyBand

text \<open>
  The field \<open>residentProfile\<close> of \<open>LLMMessageContext\<close> is a reference to the one
  profile object of the application; it is kept in the application state and is not
  copied into the context.
\<close>

record LLMMessageContext =
  riskScores :: RiskScores
  timeOfDay :: real
  interventionLevel :: InterventionLevel
  topContributingFactors :: "string list"
  staffLoad :: real
  useWearables :: bool
  heartRate :: "real option"
  spO2 :: "real option"

record LLMConfig =
  apiKey :: string
  baseUrl :: string
  model :: string
  enabled :: bool

record TimelineEvent =
  time :: real
  label :: string
  urgency :: UrgencyBand
  detail :: string

text \<open>
  \<open>CurrentState\<close> shares field names with \<open>LLMMessageContext\<close>, and \<open>Deviations\<close>
  shares \<open>mobility\<close> and \<open>restlessness\<close> with \<open>CurrentState\<close>.  An unqualified
  \<open>timeOfDay\<close>, \<open>staffLoad\<close>, \<open>useWearables\<close>, \<open>heartRate\<close> or \<open>spO2\<close> is the
  field of \<open>CurrentState\<close>; \<open>mobility\<close> and \<open>restlessness\<close> are written with their
  qualified names.
\<close>

record CurrentState =
  timeOfDay :: real
  mobility :: real
  restlessness :: real
  speechDrift :: real
  socialIsolation :: real
  useWearables :: bool
  heartRate :: real
  spO2 :: real
  staffLoad :: real

record Deviations =
  mobility :: real
  restlessness :: real
  speech :: real
  social :: real

text \<open>
  Of \<open>InterventionOutput\<close> the level and its label are modelled.  The three message
  texts are built from formatted numbers and from characters outside ASCII; nothing below
  depends on them.
\<close>

record InterventionOutput =
  level :: InterventionLevel
  levelLabel :: string

section \<open>Baseline model (baseline.ts)\<close>

definition DEFAULT_BASELINE :: ResidentBaseline where
  "DEFAULT_BASELINE =
     \<lparr>mobilityMean = 70, mobilityVar = 100,
      restlessnessMean = 25, restlessnessVar = 64,
      speechMean = 20, speechVar = 49,
      socialMean = 30, socialVar = 81,
      sleepStart = 22, sleepEnd = 6\<rparr>"

definition defaultState :: CurrentState where
  "defaultState =
     \<lparr>timeOfDay = 14, CurrentState.mobility = 70, CurrentState.restlessness = 25,
      speechDrift = 20, socialIsolation = 30, useWearables = False,
      heartRate = 72, spO2 = 97, staffLoad = 40\<rparr>"

definition EPS :: real where
  "EPS = 1"

definition norm_dev :: "real \<Rightarrow> real \<Rightarrow> real \<Rightarrow> real" where
  "norm_dev current mean variance = (current - mean) / sqrt (variance + EPS)"

definition computeDeviations :: "ResidentBaseline \<Rightarrow> CurrentState \<Rightarrow> Deviations" where
  "computeDeviations baseline state =
     \<lparr>mobility = - norm_dev (CurrentState.mobility state) (mobilityMean baseline) (mobilityVar baseline),
      restlessness = norm_dev (CurrentState.restlessness state) (restlessnessMean baseline) (restlessnessVar baseline),
      speech = norm_dev (speechDrift state) (speechMean baseline) (speechVar baseline),
      social = norm_dev (socialIsolation state) (socialMean baseline) (socialVar baseline)\<rparr>"

definition isNightHour :: "real \<Rightarrow> ResidentBaseline \<Rightarrow> bool" where
  "isNightHour hour baseline =
     (let h = js_rem (js_rem hour 24 + 24) 24 in
      if sleepStart baseline > sleepEnd baseline
      then h \<ge> sleepStart baseline \<or> h < sleepEnd baseline
      else h \<ge> sleepStart baseline \<and> h < sleepEnd baseline)"

section \<open>Risk scorer (risk.ts)\<close>

definition clamp :: "real \<Rightarrow> real \<Rightarrow> real \<Rightarrow> real" where
  "clamp v lo hi = max lo (min hi v)"

text \<open>\<open>clamp(v)\<close> with the default arguments \<open>lo = 0\<close>, \<open>hi = 100\<close>.\<close>

definition clamp100 :: "real \<Rightarrow> real" where
  "clamp100 v = clamp v 0 100"

text \<open>The running sum \<open>fall\<close> before it is clamped, one binding per statement.\<close>

definition fall_sum :: "CurrentState \<Rightarrow> Deviations \<Rightarrow> bool \<Rightarrow> real" where
  "fall_sum state deviations night =
     (let fall = 0;
          fall = fall + (100 - CurrentState.mobility state) * 0.35;
          fall = fall + CurrentState.restlessness state * 0.20;
          fall = (if night then fall + 18 else fall);
          fall = fall + max 0 (Deviations.mobility deviations) * 5;
          fall = fall + max 0 (Deviations.restlessness deviations) * 3;
          fall = (if useWearables state
                  then (let fall = (if heartRate state > 110
                                    then fall + (heartRate state - 110) * 0.5 else fall)
                        in (if spO2 state < 92 then fall + (92 - spO2 state) * 3 else fall))
                  else fall)
      in fall)"

definition cognitive_sum :: "CurrentState \<Rightarrow> Deviations \<Rightarrow> bool \<Rightarrow> real" where
  "cognitive_sum state deviations night =
     (let cognitive = 0;
          cognitive = cognitive + speechDrift state * 0.45;
          cognitive = (if night then cognitive + CurrentState.restlessness state * 0.25 else cognitive);
          cognitive = cognitive + max 0 (speech deviations) * 4
      in cognitive)"

definition loneliness_sum :: "CurrentState \<Rightarrow> Deviations \<Rightarrow> real" where
  "loneliness_sum state deviations =
     (let loneliness = 0;
          loneliness = loneliness + socialIsolation state * 0.50;
          activityProxy = CurrentState.mobility state * 0.3 + (100 - CurrentState.restlessness state) * 0.2;
          loneliness = loneliness + max 0 (50 - activityProxy) * 0.3;
          loneliness = loneliness + max 0 (social deviations) * 4
      in loneliness)"

definition computeRisks :: "CurrentState \<Rightarrow> Deviations \<Rightarrow> ResidentBaseline \<Rightarrow> RiskScores" where
  "computeRisks state deviations baseline =
     (let night = isNightHour (timeOfDay state) baseline;
          fall = clamp100 (fall_sum state deviations night);
          cognitive = clamp100 (cognitive_sum state deviations night);
          loneliness = clamp100 (loneliness_sum state deviations);
          overall = clamp100 (fall * 0.40 + cognitive * 0.30 + loneliness * 0.30)
      in \<lparr>fall = fall, cognitive = cognitive, loneliness = loneliness, overall = overall\<rparr>)"

definition urgencyBand :: "real \<Rightarrow> UrgencyBand" where
  "urgencyBand score =
     (if score < 40 then Low
      else if score < 70 then Medium
      else High)"

section \<open>Explanation builder (risk.ts)\<close>

text \<open>An entry \<open>{ factor, weight }\<close> of the explanation.\<close>

record Factor =
  factor :: string
  weight :: real

record ExplanationOutput =
  topFactors :: "Factor list"
  narrative :: string

text \<open>
  \<open>Array.prototype.sort\<close> with a comparator is a stable sort: \<open>a\<close> stays before
  \<open>b\<close> unless \<open>cmp a b > 0\<close>.  It is modelled by insertion from the right end.
\<close>

fun insert_sorted :: "('a \<Rightarrow> 'a \<Rightarrow> real) \<Rightarrow> 'a \<Rightarrow> 'a list \<Rightarrow> 'a list" where
  "insert_sorted cmp x [] = [x]"
| "insert_sorted cmp x (y # ys) =
     (if cmp x y \<le> 0 then x # y # ys else y # insert_sorted cmp x ys)"

definition array_sort :: "('a \<Rightarrow> 'a \<Rightarrow> real) \<Rightarrow> 'a list \<Rightarrow> 'a list" where
  "array_sort cmp xs = foldr (insert_sorted cmp) xs []"

text \<open>\<open>toLowerCase\<close> on the ASCII letters, which is all the factor names contain.\<close>

definition toLowerCase :: "string \<Rightarrow> string" where
  "toLowerCase s =
     map (\<lambda>c. if (65::nat) \<le> of_char c \<and> of_char c \<le> (90::nat)
              then char_of (of_char c + (32::nat)) else c) s"

fun join :: "string \<Rightarrow> string list \<Rightarrow> string" where
  "join sep [] = []"
| "join sep [x] = x"
| "join sep (x # y # ys) = x @ sep @ join sep (y # ys)"

text \<open>The ten rules in the order of the source, each pushing one factor when it triggers.\<close>

definition checklist :: "CurrentState \<Rightarrow> Deviations \<Rightarrow> bool \<Rightarrow> Factor list" where
  "checklist state deviations night =
     (if CurrentState.mobility state < 50
      then [\<lparr>factor = ''Reduced mobility stability'', weight = (100 - CurrentState.mobility state) / 100\<rparr>] else [])
     @ (if CurrentState.restlessness state > 40
      then [\<lparr>factor = ''Elevated restlessness'', weight = CurrentState.restlessness state / 100\<rparr>] else [])
     @ (if night
      then [\<lparr>factor = ''Nighttime hours'', weight = 0.6\<rparr>] else [])
     @ (if speechDrift state > 35
      then [\<lparr>factor = ''Speech clarity change'', weight = speechDrift state / 100\<rparr>] else [])
     @ (if socialIsolation state > 45
      then [\<lparr>factor = ''Social isolation trend'', weight = socialIsolation state / 100\<rparr>] else [])
     @ (if staffLoad state > 60
      then [\<lparr>factor = ''High staff workload'', weight = staffLoad state / 120\<rparr>] else [])
     @ (if useWearables state \<and> heartRate state > 100
      then [\<lparr>factor = ''Elevated heart rate'', weight = 0.5\<rparr>] else [])
     @ (if useWearables state \<and> spO2 state < 93
      then [\<lparr>factor = ''Low blood oxygen'', weight = 0.7\<rparr>] else [])
     @ (if Deviations.mobility deviations > 1.5
      then [\<lparr>factor = ''Mobility below personal baseline'', weight = 0.55\<rparr>] else [])
     @ (if Deviations.restlessness deviations > 1.5
      then [\<lparr>factor = ''Restlessness above personal baseline'', weight = 0.45\<rparr>] else [])"

definition defaultFactor :: Factor where
  "defaultFactor = \<lparr>factor = ''All signals within comfortable range'', weight = 0.1\<rparr>"

text \<open>The array \<open>factors\<close> once the default has been added, and once it has been sorted.\<close>

definition allFactors :: "CurrentState \<Rightarrow> Deviations \<Rightarrow> bool \<Rightarrow> Factor list" where
  "allFactors state deviations night =
     (let factors = checklist state deviations night in
      if length factors = 0 then factors @ [defaultFactor] else factors)"

definition sortedFactors :: "CurrentState \<Rightarrow> Deviations \<Rightarrow> bool \<Rightarrow> Factor list" where
  "sortedFactors state deviations night =
     array_sort (\<lambda>a b. weight b - weight a) (allFactors state deviations night)"

definition narrativeLow :: string where
  "narrativeLow = ''The resident's current state is within a comfortable range. ''
     @ ''No significant deviations from their personal baseline have been detected.''"

definition buildExplanation ::
  "CurrentState \<Rightarrow> Deviations \<Rightarrow> RiskScores \<Rightarrow> ResidentBaseline \<Rightarrow> ExplanationOutput" where
  "buildExplanation state deviations risks baseline =
     (let night = isNightHour (timeOfDay state) baseline;
          top3 = take 3 (sortedFactors state deviations night);
          band = urgencyBand (overall risks);
          narrative =
            (if band = Low then narrativeLow
             else if band = Medium then
               (let topNames = join '' and '' (map (\<lambda>f. toLowerCase (factor f)) top3) in
                ''Moderate attention suggested. The system has noticed '' @ topNames @ ''. ''
                @ ''These patterns are being monitored to ensure the resident's comfort and safety.'')
             else
               (let topNames = join '', '' (map (\<lambda>f. toLowerCase (factor f)) top3) in
                ''Elevated concern detected due to '' @ topNames @ ''. ''
                @ ''The system recommends timely support to ensure the resident's wellbeing.''))
      in \<lparr>topFactors = top3, narrative = narrative\<rparr>)"

section \<open>Intervention selector (intervention.ts)\<close>

fun buildIntervention ::
  "InterventionLevel \<Rightarrow> CurrentState \<Rightarrow> RiskScores \<Rightarrow> bool \<Rightarrow> InterventionOutput" where
  "buildIntervention L1 state risks night = \<lparr>level = L1, levelLabel = ''Ambient Cue''\<rparr>"
| "buildIntervention L2 state risks night = \<lparr>level = L2, levelLabel = ''Gentle Prompt''\<rparr>"
| "buildIntervention L3 state risks night = \<lparr>level = L3, levelLabel = ''Staff Soft Alert''\<rparr>"
| "buildIntervention L4 state risks night = \<lparr>level = L4, levelLabel = ''Escalate''\<rparr>"

definition selectIntervention :: "CurrentState \<Rightarrow> RiskScores \<Rightarrow> real \<Rightarrow> InterventionOutput" where
  "selectIntervention state risks recentHighCount =
     (let night = isNightHour (timeOfDay state) DEFAULT_BASELINE;
          fallBand = urgencyBand (fall risks);
          cognitiveBand = urgencyBand (cognitive risks);
          lonelinessBand = urgencyBand (loneliness risks);
          overallBand = urgencyBand (overall risks);
          vitalsAbnormal = (useWearables state \<and> (heartRate state > 120 \<or> spO2 state < 90));
          lvl = (if (overallBand = High \<and> vitalsAbnormal) \<or> recentHighCount \<ge> 3 then L4
                 else if fallBand = High \<or> (overallBand = Medium \<and> staffLoad state > 65) then L3
                 else if fallBand = Medium \<or> lonelinessBand = Medium \<or> lonelinessBand = High
                         \<or> cognitiveBand = Medium then L2
                 else if night \<and> (fallBand = Low \<or> fallBand = Medium) then L1
                 else L1)
      in buildIntervention lvl state risks night)"

section \<open>Enrichment response parser (engine/llmMessaging.ts)\<close>

text \<open>
  A JavaScript string is a sequence of UTF-16 code units.  The response body and
  everything cut out of it is modelled as the list of its code units, each a natural
  number; \<open>js_string\<close> gives the code units of an ASCII literal of the source.
\<close>

type_synonym jsstring = "nat list"

definition js_string :: "string \<Rightarrow> jsstring" where
  "js_string s = map of_char s"

record LLMGeneratedMessages =
  residentMessage :: "jsstring option"
  staffMessage :: "jsstring option"
  explanationText :: jsstring

text \<open>
  \<open>JSON.parse\<close> is part of the runtime.  It is modelled by a recursive-descent parser
  for the JSON grammar (ECMA-404): \<open>None\<close> stands for the \<open>SyntaxError\<close> it throws.  A
  number is kept as its lexeme.  Where a recursive call is made on what an earlier call
  left over, the call is guarded by a comparison of lengths, which makes the recursion
  terminate evidently; the comparisons hold always, and the functions satisfy the
  equations without them (\<open>parse_elements_eq\<close>, \<open>parse_members_eq\<close> below).
\<close>

datatype json =
  JNull | JBool bool | JNumber jsstring | JString jsstring
| JArray "json list" | JObject "(jsstring \<times> json) list"

definition is_json_ws :: "nat \<Rightarrow> bool" where
  "is_json_ws c \<longleftrightarrow> c = 0x20 \<or> c = 0x09 \<or> c = 0x0A \<or> c = 0x0D"

definition skip_ws :: "jsstring \<Rightarrow> jsstring" where
  "skip_ws s = dropWhile is_json_ws s"

definition is_digit :: "nat \<Rightarrow> bool" where
  "is_digit c \<longleftrightarrow> of_char (CHR ''0'') \<le> c \<and> c \<le> of_char (CHR ''9'')"

definition hex_digit :: "nat \<Rightarrow> nat option" where
  "hex_digit c =
     (if of_char (CHR ''0'') \<le> c \<and> c \<le> of_char (CHR ''9'') then Some (c - of_char (CHR ''0''))
      else if of_char (CHR ''A'') \<le> c \<and> c \<le> of_char (CHR ''F'') then Some (c - of_char (CHR ''A'') + 10)
      else if of_char (CHR ''a'') \<le> c \<and> c \<le> of_char (CHR ''f'') then Some (c - of_char (CHR ''a'') + 10)
      else None)"

text \<open>The character after a backslash, and the code unit the escape stands for.\<close>

definition unescape :: "nat \<Rightarrow> nat option" where
  "unescape e =
     (if e = 0x22 then Some 0x22
      else if e = 0x5C then Some 0x5C
      else if e = of_char (CHR ''/'') then Some (of_char (CHR ''/''))
      else if e = of_char (CHR ''b'') then Some 0x08
      else if e = of_char (CHR ''f'') then Some 0x0C
      else if e = of_char (CHR ''n'') then Some 0x0A
      else if e = of_char (CHR ''r'') then Some 0x0D
      else if e = of_char (CHR ''t'') then Some 0x09
      else None)"

text \<open>Four hexadecimal digits give one code unit, whatever its value.\<close>

definition unicode_escape :: "nat \<Rightarrow> nat \<Rightarrow> nat \<Rightarrow> nat \<Rightarrow> nat option" where
  "unicode_escape h1 h2 h3 h4 =
     (case (hex_digit h1, hex_digit h2, hex_digit h3, hex_digit h4) of
        (Some a, Some b, Some c, Some d) \<Rightarrow> Some (((a * 16 + b) * 16 + c) * 16 + d)
      | _ \<Rightarrow> None)"

definition cons_fst :: "'a \<Rightarrow> ('a list \<times> 'b) option \<Rightarrow> ('a list \<times> 'b) option" where
  "cons_fst x r = map_option (\<lambda>p. (x # fst p, snd p)) r"

text \<open>
  The characters of a string after its opening quote, up to the closing quote: the
  string's value and the rest of the input.  A control character ends the parse.
\<close>

fun parse_chars :: "jsstring \<Rightarrow> (jsstring \<times> jsstring) option"
and parse_escape :: "jsstring \<Rightarrow> (jsstring \<times> jsstring) option" where
  "parse_chars [] = None"
| "parse_chars (c # cs) =
     (if c = 0x22 then Some ([], cs)
      else if c = 0x5C then parse_escape cs
      else if c < 0x20 then None
      else cons_fst c (parse_chars cs))"
| "parse_escape [] = None"
| "parse_escape (e # cs) =
     (if e = of_char (CHR ''u'') then
        (case cs of
           h1 # h2 # h3 # h4 # r \<Rightarrow>
             (case unicode_escape h1 h2 h3 h4 of
                None \<Rightarrow> None
              | Some u \<Rightarrow> cons_fst u (parse_chars r))
         | _ \<Rightarrow> None)
      else (case unescape e of
              None \<Rightarrow> None
            | Some u \<Rightarrow> cons_fst u (parse_chars cs)))"

definition digits1 :: "jsstring \<Rightarrow> (jsstring \<times> jsstring) option" where
  "digits1 s = (if takeWhile is_digit s = [] then None
                else Some (takeWhile is_digit s, dropWhile is_digit s))"

definition parse_int :: "jsstring \<Rightarrow> (jsstring \<times> jsstring) option" where
  "parse_int s =
     (case s of
        [] \<Rightarrow> None
      | d # r \<Rightarrow> if d = of_char (CHR ''0'') then Some ([d], r)
                else if is_digit d then Some (d # takeWhile is_digit r, dropWhile is_digit r)
                else None)"

definition parse_frac :: "jsstring \<Rightarrow> (jsstring \<times> jsstring) option" where
  "parse_frac s =
     (case s of
        [] \<Rightarrow> Some ([], s)
      | c # r \<Rightarrow> if c = of_char (CHR ''.'') then cons_fst c (digits1 r) else Some ([], s))"

definition parse_exp :: "jsstring \<Rightarrow> (jsstring \<times> jsstring) option" where
  "parse_exp s =
     (case s of
        [] \<Rightarrow> Some ([], s)
      | c # r \<Rightarrow>
          if c = of_char (CHR ''e'') \<or> c = of_char (CHR ''E'') then
            (case r of
               [] \<Rightarrow> None
             | g # r' \<Rightarrow> if g = of_char (CHR ''+'') \<or> g = of_char (CHR ''-'')
                         then cons_fst c (cons_fst g (digits1 r'))
                         else cons_fst c (digits1 r))
          else Some ([], s))"

definition parse_number :: "jsstring \<Rightarrow> (jsstring \<times> jsstring) option" where
  "parse_number s =
     (let (sign, s1) = (case s of [] \<Rightarrow> ([], s)
                        | c # r \<Rightarrow> if c = of_char (CHR ''-'') then ([c], r) else ([], s))
      in case parse_int s1 of
           None \<Rightarrow> None
         | Some (i, s2) \<Rightarrow>
             (case parse_frac s2 of
                None \<Rightarrow> None
              | Some (f, s3) \<Rightarrow>
                  (case parse_exp s3 of
                     None \<Rightarrow> None
                   | Some (e, s4) \<Rightarrow> Some (sign @ i @ f @ e, s4))))"

text \<open>One of the words \<open>true\<close>, \<open>false\<close>, \<open>null\<close> at the head of the input.\<close>

definition literal :: "string \<Rightarrow> jsstring \<Rightarrow> jsstring option" where
  "literal w s = (if take (length w) s = js_string w then Some (drop (length w) s) else None)"

function parse_value :: "jsstring \<Rightarrow> (json \<times> jsstring) option"
and parse_elements :: "jsstring \<Rightarrow> (json list \<times> jsstring) option"
and parse_members :: "jsstring \<Rightarrow> ((jsstring \<times> json) list \<times> jsstring) option" where
  "parse_value s =
     (case skip_ws s of
        [] \<Rightarrow> None
      | c # cs \<Rightarrow>
          if c = of_char (CHR ''{'') then
            (case skip_ws cs of
               [] \<Rightarrow> None
             | d # ds \<Rightarrow> if d = of_char (CHR ''}'') then Some (JObject [], ds)
                         else map_option (\<lambda>p. (JObject (fst p), snd p)) (parse_members cs))
          else if c = of_char (CHR ''['') then
            (case skip_ws cs of
               [] \<Rightarrow> None
             | d # ds \<Rightarrow> if d = of_char (CHR '']'') then Some (JArray [], ds)
                         else map_option (\<lambda>p. (JArray (fst p), snd p)) (parse_elements cs))
          else if c = 0x22 then
            map_option (\<lambda>p. (JString (fst p), snd p)) (parse_chars cs)
          else if c = of_char (CHR ''t'') then
            map_option (\<lambda>r. (JBool True, r)) (literal ''true'' (c # cs))
          else if c = of_char (CHR ''f'') then
            map_option (\<lambda>r. (JBool False, r)) (literal ''false'' (c # cs))
          else if c = of_char (CHR ''n'') then
            map_option (\<lambda>r. (JNull, r)) (literal ''null'' (c # cs))
          else map_option (\<lambda>p. (JNumber (fst p), snd p)) (parse_number (c # cs)))"
| "parse_elements s =
     (case parse_value s of
        None \<Rightarrow> None
      | Some (v, r) \<Rightarrow>
          (case skip_ws r of
             [] \<Rightarrow> None
           | c # r' \<Rightarrow> if c = of_char (CHR '','') then
                         (if length r' < length s then cons_fst v (parse_elements r') else None)
                       else if c = of_char (CHR '']'') then Some ([v], r')
                       else None))"
| "parse_members s =
     (case skip_ws s of
        [] \<Rightarrow> None
      | q # r0 \<Rightarrow>
          if q = 0x22 then
            (case parse_chars r0 of
               None \<Rightarrow> None
             | Some (k, r1) \<Rightarrow>
                 (case skip_ws r1 of
                    [] \<Rightarrow> None
                  | c # r2 \<Rightarrow>
                      if c = of_char (CHR '':'') \<and> length r2 < length s then
                        (case parse_value r2 of
                           None \<Rightarrow> None
                         | Some (v, r3) \<Rightarrow>
                             (case skip_ws r3 of
                                [] \<Rightarrow> None
                              | d # r4 \<Rightarrow> if d = of_char (CHR '','') then
                                            (if length r4 < length s
                                             then cons_fst (k, v) (parse_members r4) else None)
                                          else if d = of_char (CHR ''}'') then Some ([(k, v)], r4)
                                          else None))
                      else None))
          else None)"
  by pat_completeness auto
termination
proof (relation "measure (\<lambda>x. case x of Inl s \<Rightarrow> 2 * length s
                                        | Inr (Inl s) \<Rightarrow> 2 * length s + 1
                                        | Inr (Inr s) \<Rightarrow> 2 * length s + 1)", goal_cases)
  case 1
  then show ?case by simp
next
  case (2 s c cs d ds)
  have "length (c # cs) \<le> length s"
    using length_dropWhile_le[of is_json_ws s] 2(1) by (simp add: skip_ws_def)
  then show ?case by simp
next
  case (3 s c cs d ds)
  have "length (c # cs) \<le> length s"
    using length_dropWhile_le[of is_json_ws s] 3(1) by (simp add: skip_ws_def)
  then show ?case by simp
next
  case 4
  then show ?case by simp
next
  case 5
  then show ?case by simp
next
  case 6
  then show ?case by simp
next
  case 7
  then show ?case by simp
qed

definition JSON_parse :: "jsstring \<Rightarrow> json option" where
  "JSON_parse s =
     (case parse_value s of
        None \<Rightarrow> None
      | Some (v, r) \<Rightarrow> if skip_ws r = [] then Some v else None)"

text \<open>
  The two \<open>replace\<close> calls and \<open>trim\<close> of \<open>parseLLMResponse\<close>.  The first regular
  expression matches three backticks and \<open>jso\<close>, an optional \<open>n\<close>, and any white
  space; the second matches three backticks.  Both replace every match, from left to
  right.  White space, for the regular expression and for \<open>trim\<close> alike, is the set
  \<open>WhiteSpace\<close> and \<open>LineTerminator\<close> of ECMAScript.
\<close>

definition is_js_space :: "nat \<Rightarrow> bool" where
  "is_js_space c \<longleftrightarrow>
     (0x09 \<le> c \<and> c \<le> 0x0D) \<or> c = 0x20 \<or> c = 0xA0 \<or> c = 0x1680 \<or>
     (0x2000 \<le> c \<and> c \<le> 0x200A) \<or> c = 0x2028 \<or> c = 0x2029 \<or> c = 0x202F \<or>
     c = 0x205F \<or> c = 0x3000 \<or> c = 0xFEFF"

function strip_json_fence :: "jsstring \<Rightarrow> jsstring" where
  "strip_json_fence s =
     (if s = [] then []
      else if take 6 s = js_string ''```jso'' then
        (let r = drop 6 s;
             r = (if take 1 r = js_string ''n'' then drop 1 r else r)
         in strip_json_fence (dropWhile is_js_space r))
      else hd s # strip_json_fence (tl s))"
  by pat_completeness auto
termination
proof (relation "measure length")
  show "wf (measure length)" by simp
next
  fix s r ra :: jsstring
  assume a: "s \<noteq> []" "take 6 s = js_string ''```jso''" "r = drop 6 s"
     "ra = (if take 1 r = js_string ''n'' then drop 1 r else r)"
  have "length (take 6 s) = 6" using a(2) by (simp add: js_string_def)
  then have l: "6 \<le> length s" by simp
  have "length ra \<le> length r" using a(4) by simp
  moreover have "length r = length s - 6" using a(3) by simp
  moreover have "length (dropWhile is_js_space ra) \<le> length ra" by (rule length_dropWhile_le)
  ultimately show "(dropWhile is_js_space ra, s) \<in> measure length" using l by simp
next
  fix s :: jsstring
  assume "s \<noteq> []"
  then show "(tl s, s) \<in> measure length" by (cases s) simp_all
qed

fun strip_fence :: "jsstring \<Rightarrow> jsstring" where
  "strip_fence (a # b # c # r) =
     (if a = 0x60 \<and> b = 0x60 \<and> c = 0x60 then strip_fence r
      else a # strip_fence (b # c # r))"
| "strip_fence s = s"

definition trim :: "jsstring \<Rightarrow> jsstring" where
  "trim s = rev (dropWhile is_js_space (rev (dropWhile is_js_space s)))"

text \<open>
  What \<open>parseLLMResponse\<close> can throw.  Reading a property of \<open>null\<close> throws a
  \<open>TypeError\<close>; on any other value that is not an object the three properties are
  undefined; in an object a later duplicate of a key replaces an earlier one.
\<close>

datatype thrown = SyntaxError | TypeError

definition get_property :: "json \<Rightarrow> string \<Rightarrow> json option" where
  "get_property v k = (case v of JObject ms \<Rightarrow> map_of (rev ms) (js_string k) | _ \<Rightarrow> None)"

text \<open>\<open>typeof p === 'string' ? p.slice(0, n) : null\<close>.\<close>

definition string_prefix_of :: "json option \<Rightarrow> nat \<Rightarrow> jsstring option" where
  "string_prefix_of p n = (case p of Some (JString s) \<Rightarrow> Some (take n s) | _ \<Rightarrow> None)"

definition defaultExplanation :: jsstring where
  "defaultExplanation =
     js_string ''The system is monitoring the resident based on current observations.''"

definition cleaned :: "jsstring \<Rightarrow> jsstring" where
  "cleaned raw = trim (strip_fence (strip_json_fence raw))"

definition parseLLMResponse :: "jsstring \<Rightarrow> thrown + LLMGeneratedMessages" where
  "parseLLMResponse raw =
     (case JSON_parse (cleaned raw) of
        None \<Rightarrow> Inl SyntaxError
      | Some parsed \<Rightarrow>
          if parsed = JNull then Inl TypeError
          else Inr
            \<lparr>residentMessage = string_prefix_of (get_property parsed ''residentMessage'') 200,
             staffMessage = string_prefix_of (get_property parsed ''staffMessage'') 300,
             explanationText =
               (case string_prefix_of (get_property parsed ''explanationText'') 500 of
                  Some s \<Rightarrow> s
                | None \<Rightarrow> defaultExplanation)\<rparr>)"

section \<open>Adaptive message controller (engine/llmMessaging.ts)\<close>

datatype LLMStatus = idle | generating | error

text \<open>A thrown or rejected JavaScript error, with the two properties the code reads.\<close>

record JsError =
  name :: string
  message :: string

text \<open>How the promise returned by \<open>generateLLMMessages\<close> settles.\<close>

datatype outcome = Fulfilled LLMGeneratedMessages | Rejected JsError

text \<open>
  The controller is a closure over \<open>timerId\<close>, \<open>abortCtrl\<close>, \<open>currentStatus\<close> and
  \<open>calls\<close>.  The type \<open>'q\<close> stands for the four arguments \<open>(ctx, config, onResult,
  onError)\<close> of one request.  The callbacks are opaque to the controller, so an
  invocation is recorded in the log \<open>callbacks\<close>, together with the number of the
  signal of the execution that made it.

  Besides the four variables the state holds what the runtime keeps:
  \<^item> the clock \<open>now\<close>, in milliseconds;
  \<^item> the timeouts that \<open>setTimeout\<close> has scheduled and that have neither run nor been
    cleared (\<open>timeouts\<close>: the handle, the time it is due and the arguments its callback
    has captured), \<open>nextTimer\<close> being the handle the next \<open>setTimeout\<close> returns.  The
    variable \<open>timerId\<close> holds a handle; it is \<open>clearTimeout\<close> that takes a timeout off
    the schedule;
  \<^item> the \<open>AbortController\<close> objects, numbered in order of allocation (\<open>nextCtrl\<close> is
    the next number), with the set of those whose signal is \<open>aborted\<close>;
  \<^item> the executions of \<open>execute\<close> suspended at their \<open>await\<close> (\<open>inflight\<close>, each with
    its signal and its arguments);
  \<^item> the log \<open>fetched\<close> of the network calls issued.
\<close>

datatype 'q callback = OnResult nat 'q LLMGeneratedMessages | OnError nat 'q JsError

text \<open>The number of the signal held by the execution that invoked the callback.\<close>

fun invoked_by :: "'q callback \<Rightarrow> nat" where
  "invoked_by (OnResult t q msgs) = t"
| "invoked_by (OnError t q err) = t"

record 'q Controller =
  timerId :: "nat option"
  abortCtrl :: "nat option"
  currentStatus :: LLMStatus
  calls :: nat
  debounceMs :: nat
  now :: nat
  nextTimer :: nat
  timeouts :: "(nat \<times> nat \<times> 'q) list"
  nextCtrl :: nat
  aborted :: "nat set"
  inflight :: "(nat \<times> 'q) list"
  fetched :: "(nat \<times> 'q) list"
  callbacks :: "'q callback list"

definition createLLMController :: "nat \<Rightarrow> 'q Controller" where
  "createLLMController ms =
     \<lparr>timerId = None, abortCtrl = None, currentStatus = idle, calls = 0,
      debounceMs = ms, now = 0, nextTimer = 0, timeouts = [], nextCtrl = 0, aborted = {},
      inflight = [], fetched = [], callbacks = []\<rparr>"

text \<open>\<open>clearTimeout(h)\<close>: the runtime drops the timeout with handle \<open>h\<close>, if it still has it.\<close>

definition clearTimeout :: "nat \<Rightarrow> 'q Controller \<Rightarrow> 'q Controller" where
  "clearTimeout h c = c\<lparr>timeouts := filter (\<lambda>t. fst t \<noteq> h) (timeouts c)\<rparr>"

definition clearTimer :: "'q Controller \<Rightarrow> 'q Controller" where
  "clearTimer c =
     (case timerId c of
        None \<Rightarrow> c
      | Some h \<Rightarrow> (clearTimeout h c)\<lparr>timerId := None\<rparr>)"

definition abortInflight :: "'q Controller \<Rightarrow> 'q Controller" where
  "abortInflight c =
     (case abortCtrl c of
        None \<Rightarrow> c
      | Some t \<Rightarrow> c\<lparr>aborted := insert t (aborted c), abortCtrl := None\<rparr>)"

text \<open>
  \<open>execute\<close> up to its \<open>await\<close>: the predecessor is aborted, a new \<open>AbortController\<close>
  is allocated, the status becomes \<open>generating\<close> and \<open>generateLLMMessages\<close> issues the
  network call with the new signal.
\<close>

definition execute :: "'q \<Rightarrow> 'q Controller \<Rightarrow> 'q Controller" where
  "execute q c0 =
     (let c = abortInflight c0;
          t = nextCtrl c
      in c\<lparr>nextCtrl := Suc t, abortCtrl := Some t, currentStatus := generating,
            fetched := fetched c @ [(t, q)], inflight := inflight c @ [(t, q)]\<rparr>)"

text \<open>
  \<open>execute\<close> after its \<open>await\<close>, for the execution that holds signal \<open>t\<close>: the
  \<open>try\<close> branch when the promise is fulfilled, the \<open>catch\<close> branch when it is
  rejected.  An execution that is not suspended cannot resume.
\<close>

definition settle :: "nat \<Rightarrow> outcome \<Rightarrow> 'q Controller \<Rightarrow> 'q Controller" where
  "settle t out c0 =
     (case map_of (inflight c0) t of
        None \<Rightarrow> c0
      | Some q \<Rightarrow>
          (let c = c0\<lparr>inflight := filter (\<lambda>p. fst p \<noteq> t) (inflight c0)\<rparr> in
           case out of
             Fulfilled msgs \<Rightarrow>
               (if t \<notin> aborted c
                then c\<lparr>calls := calls c + 1, currentStatus := idle,
                       callbacks := callbacks c @ [OnResult t q msgs]\<rparr>
                else c)
           | Rejected err \<Rightarrow>
               (if name err = ''AbortError'' \<or> t \<in> aborted c
                then c
                else c\<lparr>currentStatus := error, callbacks := callbacks c @ [OnError t q err]\<rparr>)))"

text \<open>
  \<open>request\<close>: \<open>clearTimer\<close>, then \<open>setTimeout\<close> schedules a new timeout, due after
  \<open>debounceMs\<close>, and its handle is stored in \<open>timerId\<close>.
\<close>

definition request :: "'q \<Rightarrow> 'q Controller \<Rightarrow> 'q Controller" where
  "request q c0 =
     (let c = clearTimer c0;
          h = nextTimer c
      in c\<lparr>nextTimer := Suc h, timeouts := timeouts c @ [(h, now c + debounceMs c, q)],
            timerId := Some h\<rparr>)"

text \<open>
  The runtime runs the callback of the scheduled timeout with handle \<open>h\<close>, once it is
  due: a timeout runs once, so the runtime takes it off the schedule; the callback sets
  \<open>timerId\<close> to null and calls \<open>execute\<close>.  A timeout that is not scheduled, or not
  yet due, does not run.
\<close>

definition timerFires :: "nat \<Rightarrow> 'q Controller \<Rightarrow> 'q Controller" where
  "timerFires h c =
     (case map_of (timeouts c) h of
        None \<Rightarrow> c
      | Some tm \<Rightarrow>
          (if fst tm \<le> now c
           then execute (snd tm)
                  (c\<lparr>timeouts := filter (\<lambda>t. fst t \<noteq> h) (timeouts c), timerId := None\<rparr>)
           else c))"

definition forceRequest :: "'q \<Rightarrow> 'q Controller \<Rightarrow> 'q Controller" where
  "forceRequest q c = execute q (clearTimer c)"

definition stopAll :: "'q Controller \<Rightarrow> 'q Controller" where
  "stopAll c = (abortInflight (clearTimer c))\<lparr>currentStatus := idle\<rparr>"

definition status :: "'q Controller \<Rightarrow> LLMStatus" where
  "status c = currentStatus c"

definition callCount :: "'q Controller \<Rightarrow> nat" where
  "callCount c = calls c"

definition elapse :: "nat \<Rightarrow> 'q Controller \<Rightarrow> 'q Controller" where
  "elapse ms c = c\<lparr>now := now c + ms\<rparr>"

text \<open>
  Everything that can happen to a controller: a call of one of its three methods, time
  passing, the runtime running the callback of a timeout, and an issued call settling.
\<close>

datatype 'q event =
  Request 'q | ForceRequest 'q | StopAll | Elapse nat | TimerFires nat | Settles nat outcome

fun step :: "'q Controller \<Rightarrow> 'q event \<Rightarrow> 'q Controller" where
  "step c (Request q) = request q c"
| "step c (ForceRequest q) = forceRequest q c"
| "step c StopAll = stopAll c"
| "step c (Elapse ms) = elapse ms c"
| "step c (TimerFires h) = timerFires h c"
| "step c (Settles t out) = settle t out c"

definition run :: "'q Controller \<Rightarrow> 'q event list \<Rightarrow> 'q Controller" where
  "run c evs = foldl step c evs"

text \<open>The calls in flight whose cancellation signal has not been triggered.\<close>

definition live :: "'q Controller \<Rightarrow> (nat \<times> 'q) list" where
  "live c = filter (\<lambda>p. fst p \<notin> aborted c) (inflight c)"

text \<open>The events that issue no new request.\<close>

fun quiet :: "'q event \<Rightarrow> bool" where
  "quiet (Request q) = False"
| "quiet (ForceRequest q) = False"
| "quiet ev = True"

text \<open>\<open>isLLMAvailable\<close> (the configuration storage of the same file).\<close>

definition isLLMAvailable :: "LLMConfig \<Rightarrow> bool" where
  "isLLMAvailable config \<longleftrightarrow> enabled config \<and> length (apiKey config) > 0"

text \<open>
  What holds of every reachable controller state.  The schedule holds at most the
  timeout whose handle is in \<open>timerId\<close>, because every \<open>setTimeout\<close> follows a
  \<open>clearTimer\<close>.
\<close>

definition ctrl_inv :: "'q Controller \<Rightarrow> bool" where
  "ctrl_inv c \<longleftrightarrow>
     (\<forall>p \<in> set (inflight c). fst p < nextCtrl c) \<and>
     (\<forall>t. abortCtrl c = Some t \<longrightarrow> t < nextCtrl c) \<and>
     (\<forall>t \<in> aborted c. t < nextCtrl c) \<and>
     distinct (map fst (inflight c)) \<and>
     (\<forall>p \<in> set (inflight c). fst p \<notin> aborted c \<longrightarrow> abortCtrl c = Some (fst p)) \<and>
     map fst (timeouts c) = (case timerId c of None \<Rightarrow> [] | Some h \<Rightarrow> [h]) \<and>
     (\<forall>h. timerId c = Some h \<longrightarrow> h < nextTimer c)"

text \<open>Nothing is scheduled and nothing can be delivered.\<close>

definition silent :: "'q Controller \<Rightarrow> bool" where
  "silent c \<longleftrightarrow> timerId c = None \<and> timeouts c = [] \<and> live c = [] \<and> currentStatus c = idle"

text \<open>
  The calls numbered below \<open>n0\<close> can no longer deliver, and the callbacks logged from
  position \<open>k\<close> on come from calls numbered \<open>n0\<close> or above.
\<close>

definition muted :: "nat \<Rightarrow> nat \<Rightarrow> 'q Controller \<Rightarrow> bool" where
  "muted n0 k c \<longleftrightarrow>
     n0 \<le> nextCtrl c \<and>
     (\<forall>p \<in> set (inflight c). fst p < n0 \<longrightarrow> fst p \<in> aborted c) \<and>
     list_all (\<lambda>cb. n0 \<le> invoked_by cb) (drop k (callbacks c))"

text \<open>Every call issued so far has a number below the next one.\<close>

definition numbered :: "'q Controller \<Rightarrow> bool" where
  "numbered c \<longleftrightarrow> list_all (\<lambda>p. fst p < nextCtrl c) (fetched c)"

section \<open>Application state and change-gate (main.ts)\<close>

text \<open>
  The module-level variables of \<open>main.ts\<close> that the gate reads or writes, as one record.
  The controller \<open>llm\<close> is the single instance created at load time.  Every request
  passes the same configuration object and the same two handlers, so the arguments of a
  request are represented by its context alone.
\<close>

record App =
  state :: CurrentState
  recentHighCount :: real
  timelineEvents :: "TimelineEvent list"
  llmConfig :: LLMConfig
  lastLLMMessages :: "LLMGeneratedMessages option"
  simRunning :: bool
  lastIntervention :: "InterventionOutput option"
  lastExplanation :: "ExplanationOutput option"
  lastRisks :: "RiskScores option"
  residentProfile :: ResidentProfile
  llm :: "LLMMessageContext Controller"
  prevSignature :: string

text \<open>The template literal renders the level as its digit and a band as its name.\<close>

fun level_string :: "InterventionLevel \<Rightarrow> string" where
  "level_string L1 = ''1''"
| "level_string L2 = ''2''"
| "level_string L3 = ''3''"
| "level_string L4 = ''4''"

fun band_string :: "UrgencyBand \<Rightarrow> string" where
  "band_string Low = ''Low''"
| "band_string Medium = ''Medium''"
| "band_string High = ''High''"

definition computeContextSignature ::
  "InterventionOutput \<Rightarrow> RiskScores \<Rightarrow> ExplanationOutput \<Rightarrow> TimelineEvent list \<Rightarrow> string" where
  "computeContextSignature intervention risks explanation events =
     (let band = urgencyBand (overall risks);
          top2 = join '','' (map factor (take 2 (topFactors explanation)));
          lastSig = find (\<lambda>e. urgency e \<noteq> Low) (rev events);
          lastEventKey = (case lastSig of
                            Some e \<Rightarrow> label e @ ''|'' @ band_string (urgency e)
                          | None \<Rightarrow> ''none'')
      in level_string (level intervention) @ ''|'' @ band_string band @ ''|'' @ top2
           @ ''|'' @ lastEventKey)"

definition stopLLMWork :: "App \<Rightarrow> App" where
  "stopLLMWork a = a\<lparr>llm := stopAll (llm a)\<rparr>"

definition buildLLMContext ::
  "RiskScores \<Rightarrow> InterventionLevel \<Rightarrow> string list \<Rightarrow> App \<Rightarrow> LLMMessageContext \<times> App" where
  "buildLLMContext risks lvl names a =
     (let a = a\<lparr>residentProfile :=
                  (residentProfile a)\<lparr>cognitiveConcernLevel := urgencyBand (cognitive risks)\<rparr>\<rparr>
      in (\<lparr>riskScores = risks,
           LLMMessageContext.timeOfDay = timeOfDay (state a),
           interventionLevel = lvl,
           topContributingFactors = names,
           LLMMessageContext.staffLoad = staffLoad (state a),
           LLMMessageContext.useWearables = useWearables (state a),
           LLMMessageContext.heartRate = (if useWearables (state a) then Some (heartRate (state a)) else None),
           LLMMessageContext.spO2 = (if useWearables (state a) then Some (spO2 (state a)) else None)\<rparr>,
          a))"

definition maybeRequestLLM ::
  "InterventionOutput \<Rightarrow> RiskScores \<Rightarrow> ExplanationOutput \<Rightarrow> App \<Rightarrow> App" where
  "maybeRequestLLM intervention risks explanation a =
     (if simRunning a then a
      else if \<not> isLLMAvailable (llmConfig a) then a
      else if level_num (level intervention) < 2
      then (stopLLMWork a)\<lparr>lastLLMMessages := None\<rparr>
      else
        (let sig = computeContextSignature intervention risks explanation (timelineEvents a) in
         if sig = prevSignature a then a
         else
           (let a = a\<lparr>prevSignature := sig\<rparr>;
                names = map factor (topFactors explanation);
                (ctx, a) = buildLLMContext risks (level intervention) names a
            in a\<lparr>llm := request ctx (llm a)\<rparr>)))"

definition forceRefreshLLM :: "App \<Rightarrow> App" where
  "forceRefreshLLM a =
     (if \<not> isLLMAvailable (llmConfig a) then a
      else case (lastIntervention a, lastRisks a, lastExplanation a) of
        (Some li, Some lr, Some le) \<Rightarrow>
          (if level_num (level li) < 2 then a
           else
             (let a = a\<lparr>prevSignature := ''''\<rparr>;
                  names = map factor (topFactors le);
                  (ctx, a) = buildLLMContext lr (level li) names a
              in a\<lparr>llm := forceRequest ctx (llm a)\<rparr>))
      | _ \<Rightarrow> a)"

definition handleLLMResult :: "LLMGeneratedMessages \<Rightarrow> App \<Rightarrow> App" where
  "handleLLMResult msgs a = a\<lparr>lastLLMMessages := Some msgs\<rparr>"

definition handleLLMError :: "JsError \<Rightarrow> App \<Rightarrow> App" where
  "handleLLMError err a = a"

definition update :: "App \<Rightarrow> App" where
  "update a =
     (let devs = computeDeviations DEFAULT_BASELINE (state a);
          risks = computeRisks (state a) devs DEFAULT_BASELINE;
          intervention = selectIntervention (state a) risks (recentHighCount a);
          explanation = buildExplanation (state a) devs risks DEFAULT_BASELINE;
          a = a\<lparr>lastIntervention := Some intervention, lastExplanation := Some explanation,
                 lastRisks := Some risks\<rparr>
      in maybeRequestLLM intervention risks explanation a)"

text \<open>
  What the runtime does to the application between evaluations: it lets time pass, runs
  the timeout callback, or settles a call; each callback the controller invokes runs the
  handler that was passed with the request.
\<close>

fun dispatch :: "App \<Rightarrow> LLMMessageContext callback \<Rightarrow> App" where
  "dispatch a (OnResult t q msgs) = handleLLMResult msgs a"
| "dispatch a (OnError t q err) = handleLLMError err a"

definition runtime_event :: "App \<Rightarrow> LLMMessageContext event \<Rightarrow> App" where
  "runtime_event a ev =
     (let c = step (llm a) ev;
          invoked = drop (length (callbacks (llm a))) (callbacks c)
      in foldl dispatch (a\<lparr>llm := c\<rparr>) invoked)"

definition runtime_events :: "App \<Rightarrow> LLMMessageContext event list \<Rightarrow> App" where
  "runtime_events a evs = foldl runtime_event a evs"

text \<open>
  The state after the module has been loaded with nothing stored: \<open>loadLLMConfig\<close>
  returns its defaults.
\<close>

definition defaultLLMConfig :: LLMConfig where
  "defaultLLMConfig =
     \<lparr>apiKey = '''', baseUrl = ''https://api.openai.com/v1'', model = ''gpt-4o-mini'',
      enabled = False\<rparr>"

definition initialApp :: App where
  "initialApp =
     \<lparr>state = defaultState, recentHighCount = 0, timelineEvents = [],
      llmConfig = defaultLLMConfig, lastLLMMessages = None, simRunning = False,
      lastIntervention = None, lastExplanation = None, lastRisks = None,
      residentProfile = \<lparr>age = 82, ResidentProfile.name = ''Eleanor'',
                           mobilityBaseline = mobilityMean DEFAULT_BASELINE,
                           cognitiveConcernLevel = Low\<rparr>,
      llm = createLLMController 600, prevSignature = ''''\<rparr>"

section \<open>Properties of the risk scorer\<close>

lemma clamp100_bounds: "0 \<le> clamp100 v \<and> clamp100 v \<le> 100"
  by (simp add: clamp100_def clamp_def)

lemma level_buildIntervention: "level (buildIntervention lvl st risks night) = lvl"
  by (cases lvl) simp_all

lemma add_if_pos: "(if c < a then x + (a - c) * k else x) = x + max 0 (a - c) * (k::real)"
  by (simp add: max_def)

lemma fall_sum_eq:
  "fall_sum st deviations night =
       (100 - CurrentState.mobility st) * 0.35
        + CurrentState.restlessness st * 0.20
        + (if night then 18 else 0)
        + max 0 (Deviations.mobility deviations) * 5
        + max 0 (Deviations.restlessness deviations) * 3
        + (if useWearables st
           then max 0 (heartRate st - 110) * 0.5 + max 0 (92 - spO2 st) * 3
           else 0)"
  by (simp only: fall_sum_def Let_def add_if_pos split: if_split) simp

text \<open>
  Claim C4.  Whatever the state, the deviations and the baseline are, each of the four
  scores returned by \<open>computeRisks\<close> lies between 0 and 100, both bounds included.
\<close>

theorem computeRisks_in_range:
  "0 \<le> fall (computeRisks st deviations baseline) \<and> fall (computeRisks st deviations baseline) \<le> 100 \<and>
   0 \<le> cognitive (computeRisks st deviations baseline) \<and> cognitive (computeRisks st deviations baseline) \<le> 100 \<and>
   0 \<le> loneliness (computeRisks st deviations baseline) \<and> loneliness (computeRisks st deviations baseline) \<le> 100 \<and>
   0 \<le> overall (computeRisks st deviations baseline) \<and> overall (computeRisks st deviations baseline) \<le> 100"
  by (simp add: computeRisks_def Let_def clamp100_bounds)

text \<open>
  Claim C5.  The fall score is the sum of the mobility term, the restlessness term, the
  night amplifier of 18, the two deviation amplifiers and, only when wearables are
  enabled, the heart-rate and SpO2 terms; the sum is clamped to the range from 0 to 100
  once, at the end, and no single term is clamped.
\<close>

theorem computeRisks_fall_formula:
  "fall (computeRisks st deviations baseline) =
     max 0 (min 100
       ((100 - CurrentState.mobility st) * 0.35
        + CurrentState.restlessness st * 0.20
        + (if isNightHour (timeOfDay st) baseline then 18 else 0)
        + max 0 (Deviations.mobility deviations) * 5
        + max 0 (Deviations.restlessness deviations) * 3
        + (if useWearables st
           then max 0 (heartRate st - 110) * 0.5 + max 0 (92 - spO2 st) * 3
           else 0)))"
  by (simp only: computeRisks_def Let_def RiskScores.simps clamp100_def clamp_def fall_sum_eq)

text \<open>
  Claim C9.  \<open>urgencyBand\<close> is a step function defined on every score: Low exactly
  below 40, Medium exactly from 40 up to but not including 70, High exactly from 70 on;
  39.999 is Low, 40 is Medium, 69.999 is Medium and 70 is High.
\<close>

theorem urgencyBand_steps:
  "(urgencyBand score = Low) = (score < 40) \<and>
   (urgencyBand score = Medium) = (40 \<le> score \<and> score < 70) \<and>
   (urgencyBand score = High) = (70 \<le> score) \<and>
   urgencyBand 39.999 = Low \<and> urgencyBand 40 = Medium \<and>
   urgencyBand 69.999 = Medium \<and> urgencyBand 70 = High"
  by (simp add: urgencyBand_def)

section \<open>Properties of the explanation builder\<close>

lemma insert_sorted_insort:
  "insert_sorted (\<lambda>a b. weight b - weight a) x ys = insort_key (\<lambda>f. - weight f) x ys"
  by (induction ys) simp_all

lemma array_sort_sort_key:
  "array_sort (\<lambda>a b. weight b - weight a) xs = sort_key (\<lambda>f. - weight f) xs"
  by (induction xs) (simp_all add: array_sort_def sort_key_def insert_sorted_insort)

lemma sortedFactors_mset:
  "mset (sortedFactors st deviations night) = mset (allFactors st deviations night)"
  by (simp add: sortedFactors_def array_sort_sort_key)

lemma sortedFactors_desc:
  "sorted_wrt (\<lambda>a b. weight a \<ge> weight b) (sortedFactors st deviations night)"
proof -
  have "sorted (map (\<lambda>f. - weight f) (sortedFactors st deviations night))"
    by (simp add: sortedFactors_def array_sort_sort_key)
  then show ?thesis
    by (simp add: sorted_wrt_map)
qed

lemma sortedFactors_stable:
  "filter (\<lambda>f. weight f = w) (sortedFactors st deviations night)
     = filter (\<lambda>f. weight f = w) (allFactors st deviations night)"
proof -
  have "filter (\<lambda>f. - weight f = - w) (sort_key (\<lambda>f. - weight f) (allFactors st deviations night))
        = filter (\<lambda>f. - weight f = - w) (allFactors st deviations night)"
    by (rule sort_key_stable)
  then show ?thesis by (simp add: sortedFactors_def array_sort_sort_key)
qed

lemma allFactors_nonempty: "allFactors st deviations night \<noteq> []"
  by (simp add: allFactors_def Let_def)

lemma js_rem_14: "js_rem (js_rem 14 24 + 24) 24 = 14"
  by (simp add: js_rem_def js_trunc_def)

lemma day14: "\<not> isNightHour 14 DEFAULT_BASELINE"
  by (simp add: isNightHour_def js_rem_14 DEFAULT_BASELINE_def)

lemma nominal_devs: "computeDeviations DEFAULT_BASELINE defaultState
   = \<lparr>mobility = 0, restlessness = 0, speech = 0, social = 0\<rparr>"
  by (simp add: computeDeviations_def norm_dev_def DEFAULT_BASELINE_def defaultState_def)

lemma nominal_overall:
  "overall (computeRisks defaultState \<lparr>mobility = 0, restlessness = 0, speech = 0, social = 0\<rparr> DEFAULT_BASELINE) = 14.66"
  using day14
  by (simp add: computeRisks_def Let_def fall_sum_def cognitive_sum_def loneliness_sum_def
      clamp100_def clamp_def defaultState_def)

lemma nominal_time: "timeOfDay defaultState = 14"
  by (simp add: defaultState_def)

lemma nominal_checklist:
  "checklist defaultState \<lparr>mobility = 0, restlessness = 0, speech = 0, social = 0\<rparr> False = []"
  by (simp add: checklist_def defaultState_def)

lemma nominal_expl:
  "buildExplanation defaultState (computeDeviations DEFAULT_BASELINE defaultState)
      (computeRisks defaultState (computeDeviations DEFAULT_BASELINE defaultState) DEFAULT_BASELINE) DEFAULT_BASELINE
   = \<lparr>topFactors = [\<lparr>factor = ''All signals within comfortable range'', weight = 0.1\<rparr>],
      narrative = narrativeLow\<rparr>"
  by (simp add: buildExplanation_def Let_def nominal_devs nominal_overall urgencyBand_def
       sortedFactors_def allFactors_def nominal_checklist nominal_time day14 array_sort_def
       defaultFactor_def)

lemma sortedFactors_default:
  "checklist st deviations night = [] \<Longrightarrow> sortedFactors st deviations night = [defaultFactor]"
  by (simp add: sortedFactors_def allFactors_def array_sort_def)

lemma allFactors_triggered:
  "checklist st deviations night \<noteq> [] \<Longrightarrow>
   allFactors st deviations night = checklist st deviations night"
  by (simp add: allFactors_def)

lemma sortedFactors_nonempty: "sortedFactors st deviations night \<noteq> []"
proof -
  have "length (sortedFactors st deviations night) = length (allFactors st deviations night)"
    by (simp add: sortedFactors_def array_sort_sort_key)
  then show ?thesis using allFactors_nonempty[of st deviations night] by auto
qed

lemma topFactors_buildExplanation:
  "topFactors (buildExplanation st deviations risks baseline)
     = take 3 (sortedFactors st deviations (isNightHour (timeOfDay st) baseline))"
  by (simp add: buildExplanation_def Let_def)

text \<open>
  Claim C8.  The list \<open>topFactors\<close> returned by \<open>buildExplanation\<close> is never empty and
  has at most three entries.  When no rule of the checklist triggers it is the single
  default factor, named "All signals within comfortable range", of weight 0.1.  Otherwise
  it is the first three entries of the triggered factors sorted by descending weight,
  where the sorted list is a rearrangement of the triggered factors in which factors of the
  same weight keep the order of the checklist.  On the default state at 14 hours with the
  default baseline the result is the default factor with the Low narrative.
\<close>

theorem buildExplanation_topFactors:
  "topFactors (buildExplanation st deviations risks baseline) \<noteq> [] \<and>
   length (topFactors (buildExplanation st deviations risks baseline)) \<le> 3 \<and>
   (if checklist st deviations (isNightHour (timeOfDay st) baseline) = []
    then topFactors (buildExplanation st deviations risks baseline)
           = [\<lparr>factor = ''All signals within comfortable range'', weight = 0.1\<rparr>]
    else topFactors (buildExplanation st deviations risks baseline)
           = take 3 (sortedFactors st deviations (isNightHour (timeOfDay st) baseline)) \<and>
         mset (sortedFactors st deviations (isNightHour (timeOfDay st) baseline))
           = mset (checklist st deviations (isNightHour (timeOfDay st) baseline)) \<and>
         sorted_wrt (\<lambda>a b. weight a \<ge> weight b)
           (sortedFactors st deviations (isNightHour (timeOfDay st) baseline)) \<and>
         (\<forall>w. filter (\<lambda>f. weight f = w)
                 (sortedFactors st deviations (isNightHour (timeOfDay st) baseline))
               = filter (\<lambda>f. weight f = w)
                   (checklist st deviations (isNightHour (timeOfDay st) baseline)))) \<and>
   buildExplanation defaultState (computeDeviations DEFAULT_BASELINE defaultState)
      (computeRisks defaultState (computeDeviations DEFAULT_BASELINE defaultState) DEFAULT_BASELINE)
      DEFAULT_BASELINE
     = \<lparr>topFactors = [\<lparr>factor = ''All signals within comfortable range'', weight = 0.1\<rparr>],
        narrative = ''The resident's current state is within a comfortable range. ''
          @ ''No significant deviations from their personal baseline have been detected.''\<rparr>"
proof -
  let ?n = "isNightHour (timeOfDay st) baseline"
  have a: "topFactors (buildExplanation st deviations risks baseline) \<noteq> []"
    by (simp add: topFactors_buildExplanation sortedFactors_nonempty)
  have b: "length (topFactors (buildExplanation st deviations risks baseline)) \<le> 3"
    by (simp add: topFactors_buildExplanation)
  have c: "topFactors (buildExplanation st deviations risks baseline)
           = [\<lparr>factor = ''All signals within comfortable range'', weight = 0.1\<rparr>]"
    if "checklist st deviations ?n = []"
    using that by (simp add: topFactors_buildExplanation sortedFactors_default defaultFactor_def)
  have d: "mset (sortedFactors st deviations ?n) = mset (checklist st deviations ?n)"
          "\<forall>w. filter (\<lambda>f. weight f = w) (sortedFactors st deviations ?n)
               = filter (\<lambda>f. weight f = w) (checklist st deviations ?n)"
    if "checklist st deviations ?n \<noteq> []"
    using that by (simp_all add: sortedFactors_mset sortedFactors_stable allFactors_triggered)
  have e: "sorted_wrt (\<lambda>a b. weight a \<ge> weight b) (sortedFactors st deviations ?n)"
    by (rule sortedFactors_desc)
  have f: "if checklist st deviations ?n = []
    then topFactors (buildExplanation st deviations risks baseline)
           = [\<lparr>factor = ''All signals within comfortable range'', weight = 0.1\<rparr>]
    else topFactors (buildExplanation st deviations risks baseline)
           = take 3 (sortedFactors st deviations ?n) \<and>
         mset (sortedFactors st deviations ?n) = mset (checklist st deviations ?n) \<and>
         sorted_wrt (\<lambda>a b. weight a \<ge> weight b) (sortedFactors st deviations ?n) \<and>
         (\<forall>w. filter (\<lambda>f. weight f = w) (sortedFactors st deviations ?n)
               = filter (\<lambda>f. weight f = w) (checklist st deviations ?n))"
  proof (cases "checklist st deviations ?n = []")
    case True
    then show ?thesis using c by simp
  next
    case False
    then show ?thesis
      using d e topFactors_buildExplanation[of st deviations risks baseline] by simp
  qed
  note g = nominal_expl[unfolded narrativeLow_def]
  show ?thesis
    by (rule conjI[OF a conjI[OF b conjI[OF f g]]])
qed

lemma night23: "isNightHour 23 DEFAULT_BASELINE"
  by (simp add: isNightHour_def js_rem_def js_trunc_def DEFAULT_BASELINE_def)

theorem buildExplanation_topFactors_witness:
  "checklist \<lparr>timeOfDay = 23, CurrentState.mobility = 70, CurrentState.restlessness = 50,
      speechDrift = 20, socialIsolation = 30, useWearables = True,
      heartRate = 105, spO2 = 92, staffLoad = 40\<rparr>
     \<lparr>mobility = 0, restlessness = 0, speech = 0, social = 0\<rparr> True
    = [\<lparr>factor = ''Elevated restlessness'', weight = 0.5\<rparr>,
       \<lparr>factor = ''Nighttime hours'', weight = 0.6\<rparr>,
       \<lparr>factor = ''Elevated heart rate'', weight = 0.5\<rparr>,
       \<lparr>factor = ''Low blood oxygen'', weight = 0.7\<rparr>] \<and>
   topFactors (buildExplanation \<lparr>timeOfDay = 23, CurrentState.mobility = 70, CurrentState.restlessness = 50,
      speechDrift = 20, socialIsolation = 30, useWearables = True,
      heartRate = 105, spO2 = 92, staffLoad = 40\<rparr>
     \<lparr>mobility = 0, restlessness = 0, speech = 0, social = 0\<rparr>
     \<lparr>fall = 0, cognitive = 0, loneliness = 0, overall = 0\<rparr> DEFAULT_BASELINE)
    = [\<lparr>factor = ''Low blood oxygen'', weight = 0.7\<rparr>,
       \<lparr>factor = ''Nighttime hours'', weight = 0.6\<rparr>,
       \<lparr>factor = ''Elevated restlessness'', weight = 0.5\<rparr>]"
  using night23 buildExplanation_topFactors
    [of "\<lparr>timeOfDay = 23, CurrentState.mobility = 70, CurrentState.restlessness = 50,
      speechDrift = 20, socialIsolation = 30, useWearables = True,
      heartRate = 105, spO2 = 92, staffLoad = 40\<rparr>"
     "\<lparr>mobility = 0, restlessness = 0, speech = 0, social = 0\<rparr>"
     "\<lparr>fall = 0, cognitive = 0, loneliness = 0, overall = 0\<rparr>" DEFAULT_BASELINE]
  by (simp add: checklist_def sortedFactors_def allFactors_def array_sort_def)

section \<open>Properties of the intervention selector\<close>

text \<open>
  Claim C3.  \<open>selectIntervention\<close> follows the priority table, the first match winning:
  level 4 exactly when the overall band is High with wearables enabled and a heart rate
  above 120 or an SpO2 below 90, or when \<open>recentHighCount\<close> is at least 3; otherwise
  level 3 when the fall band is High or the overall band is Medium with a staff load
  above 65; otherwise level 2 when the fall band is Medium, the loneliness band is Medium
  or High, or the cognitive band is Medium; otherwise level 1.  A level from 1 to 4 is
  always produced, and a \<open>recentHighCount\<close> of 3 gives level 4 whatever the other
  signals are, in particular on the comfortable default state.
\<close>

theorem selectIntervention_table:
  "level_num (level (selectIntervention st risks cnt)) =
     (if (urgencyBand (overall risks) = High \<and> useWearables st \<and>
          (heartRate st > 120 \<or> spO2 st < 90)) \<or> cnt \<ge> 3 then 4
      else if urgencyBand (fall risks) = High \<or>
              (urgencyBand (overall risks) = Medium \<and> staffLoad st > 65) then 3
      else if urgencyBand (fall risks) = Medium \<or> urgencyBand (loneliness risks) = Medium \<or>
              urgencyBand (loneliness risks) = High \<or> urgencyBand (cognitive risks) = Medium then 2
      else 1) \<and>
   (level_num (level (selectIntervention st risks cnt)) = 4) =
     ((urgencyBand (overall risks) = High \<and> useWearables st \<and>
       (heartRate st > 120 \<or> spO2 st < 90)) \<or> cnt \<ge> 3) \<and>
   level_num (level (selectIntervention st risks cnt)) \<in> {1, 2, 3, 4} \<and>
   level_num (level (selectIntervention st risks 3)) = 4 \<and>
   level_num (level (selectIntervention defaultState
      (computeRisks defaultState (computeDeviations DEFAULT_BASELINE defaultState) DEFAULT_BASELINE)
      3)) = 4"
  by (auto simp add: selectIntervention_def Let_def level_buildIntervention)

section \<open>Properties of the response parser\<close>

lemma length_skip_ws: "length (skip_ws s) \<le> length s"
  by (simp add: skip_ws_def length_dropWhile_le)

lemma cons_fst_Some: "cons_fst x p = Some (a, b) \<longleftrightarrow> (\<exists>a'. p = Some (a', b) \<and> a = x # a')"
  by (cases p) (auto simp: cons_fst_def)

lemma parse_chars_consumes:
  "(parse_chars cs = Some (k, r) \<longrightarrow> length r < length cs) \<and>
   (parse_escape cs = Some (k, r) \<longrightarrow> length r < length cs)"
proof (induction cs arbitrary: k r rule: length_induct)
  case (1 cs)
  have ih: "\<And>t k r. length t < length cs \<Longrightarrow> parse_chars t = Some (k, r) \<Longrightarrow> length r < length t"
    using 1 by blast
  have esc: "parse_escape cs = Some (k, r) \<longrightarrow> length r < length cs"
  proof (cases cs)
    case Nil
    then show ?thesis by simp
  next
    case (Cons e t)
    show ?thesis
    proof
      assume a: "parse_escape cs = Some (k, r)"
      show "length r < length cs"
      proof (cases "e = of_char (CHR ''u'')")
        case True
        then obtain h1 h2 h3 h4 t' k' where t: "t = h1 # h2 # h3 # h4 # t'"
          and p: "parse_chars t' = Some (k', r)"
          using a Cons
          by (auto simp: cons_fst_Some split: list.splits option.splits)
        have "length r < length t'" using ih[of t' k' r] p t Cons by simp
        then show ?thesis using t Cons by simp
      next
        case False
        then obtain k' where p: "parse_chars t = Some (k', r)"
          using a Cons by (auto simp: cons_fst_Some split: option.splits)
        have "length r < length t" using ih[of t k' r] p Cons by simp
        then show ?thesis using Cons by simp
      qed
    qed
  qed
  have chr: "parse_chars cs = Some (k, r) \<longrightarrow> length r < length cs"
  proof (cases cs)
    case Nil
    then show ?thesis by simp
  next
    case (Cons c t)
    show ?thesis
    proof
      assume a: "parse_chars cs = Some (k, r)"
      consider (q) "c = 0x22" | (b) "c \<noteq> 0x22" "c = 0x5C"
        | (o) "c \<noteq> 0x22" "c \<noteq> 0x5C" by blast
      then show "length r < length cs"
      proof cases
        case q
        then show ?thesis using a Cons by simp
      next
        case b
        then have pe: "parse_escape t = Some (k, r)" using a Cons by simp
        show ?thesis
        proof (cases t)
          case Nil
          then show ?thesis using pe by simp
        next
          case (Cons e t2)
          show ?thesis
          proof (cases "e = of_char (CHR ''u'')")
            case True
            then obtain h1 h2 h3 h4 t' k' where t: "t2 = h1 # h2 # h3 # h4 # t'"
              and p: "parse_chars t' = Some (k', r)"
              using pe Cons
              by (auto simp: cons_fst_Some split: list.splits option.splits)
            have "length r < length t'" using ih[of t' k' r] p t Cons \<open>cs = c # t\<close> by simp
            then show ?thesis using t Cons \<open>cs = c # t\<close> by simp
          next
            case False
            then obtain k' where p: "parse_chars t2 = Some (k', r)"
              using pe Cons by (auto simp: cons_fst_Some split: option.splits)
            have "length r < length t2" using ih[of t2 k' r] p Cons \<open>cs = c # t\<close> by simp
            then show ?thesis using Cons \<open>cs = c # t\<close> by simp
          qed
        qed
      next
        case o
        then obtain k' where p: "parse_chars t = Some (k', r)"
          using a Cons by (auto simp: cons_fst_Some split: if_splits)
        have "length r < length t" using ih[of t k' r] p Cons by simp
        then show ?thesis using Cons by simp
      qed
    qed
  qed
  show ?case using esc chr by blast
qed

lemma literal_consumes: "literal w s = Some r \<Longrightarrow> w \<noteq> [] \<Longrightarrow> length r < length s"
proof -
  assume a: "literal w s = Some r" and w: "w \<noteq> []"
  have t: "take (length w) s = js_string w" and r: "r = drop (length w) s"
    using a by (auto simp: literal_def split: if_splits)
  have "length (take (length w) s) = length w" using t by (simp add: js_string_def)
  then have "length w \<le> length s" by simp
  then show ?thesis using r w by (cases w) simp_all
qed

lemma digits1_consumes: "digits1 s = Some (d, r) \<Longrightarrow> length r \<le> length s"
  by (auto simp: digits1_def length_dropWhile_le split: if_splits)

lemma parse_int_consumes: "parse_int s = Some (d, r) \<Longrightarrow> length r < length s"
  by (auto simp: parse_int_def length_dropWhile_le le_imp_less_Suc split: list.splits if_splits)

lemma parse_frac_consumes: "parse_frac s = Some (d, r) \<Longrightarrow> length r \<le> length s"
  by (auto simp: parse_frac_def cons_fst_Some split: list.splits if_splits
        dest!: digits1_consumes)

lemma parse_exp_consumes: "parse_exp s = Some (d, r) \<Longrightarrow> length r \<le> length s"
  by (auto simp: parse_exp_def cons_fst_Some split: list.splits if_splits
        dest!: digits1_consumes)

lemma parse_number_consumes: "parse_number s = Some (d, r) \<Longrightarrow> length r < length s"
proof -
  assume a: "parse_number s = Some (d, r)"
  obtain sg s1 where sg: "(case s of [] \<Rightarrow> ([], s)
                        | c # r \<Rightarrow> if c = of_char (CHR ''-'') then ([c], r) else ([], s)) = (sg, s1)"
    by (cases "(case s of [] \<Rightarrow> ([], s)
                        | c # r \<Rightarrow> if c = of_char (CHR ''-'') then ([c], r) else ([], s))") auto
  have l1: "length s1 \<le> length s" using sg by (auto split: list.splits if_splits)
  from a sg obtain i s2 f s3 e where
    p: "parse_int s1 = Some (i, s2)" "parse_frac s2 = Some (f, s3)" "parse_exp s3 = Some (e, r)"
    by (auto simp: parse_number_def Let_def split: option.splits)
  show ?thesis
    using l1 parse_int_consumes[OF p(1)] parse_frac_consumes[OF p(2)] parse_exp_consumes[OF p(3)]
    by simp
qed

lemma skip_ws_Cons_length: "skip_ws s = c # cs \<Longrightarrow> length cs < length s"
  using length_skip_ws[of s] by simp

lemma parse_consumes:
  "(\<forall>v r. parse_value s = Some (v, r) \<longrightarrow> length r < length s) \<and>
   (\<forall>vs r. parse_elements s = Some (vs, r) \<longrightarrow> length r < length s) \<and>
   (\<forall>ms r. parse_members s = Some (ms, r) \<longrightarrow> length r < length s)"
proof (induction s rule: length_induct)
  case (1 s)
  have ihv: "\<And>t v r. length t < length s \<Longrightarrow> parse_value t = Some (v, r) \<Longrightarrow> length r < length t"
    and ihe: "\<And>t v r. length t < length s \<Longrightarrow> parse_elements t = Some (v, r) \<Longrightarrow> length r < length t"
    and ihm: "\<And>t v r. length t < length s \<Longrightarrow> parse_members t = Some (v, r) \<Longrightarrow> length r < length t"
    using 1 by blast+
  have V: "length r < length s" if a: "parse_value s = Some (v, r)" for v r
  proof (cases "skip_ws s")
    case Nil
    then show ?thesis using a by (simp add: parse_value.simps[of s])
  next
    case (Cons c cs)
    have lc: "length cs < length s" using Cons by (rule skip_ws_Cons_length)
    consider (obj) "c = of_char (CHR ''{'')" | (arr) "c \<noteq> of_char (CHR ''{'')" "c = of_char (CHR ''['')"
      | (other) "c \<noteq> of_char (CHR ''{'')" "c \<noteq> of_char (CHR ''['')" by blast
    then show ?thesis
    proof cases
      case obj
      show ?thesis
      proof (cases "skip_ws cs")
        case Nil
        then show ?thesis using a Cons obj by (simp add: parse_value.simps[of s])
      next
        case (Cons d ds)
        have ld: "length ds < length cs" using Cons by (rule skip_ws_Cons_length)
        show ?thesis
        proof (cases "d = of_char (CHR ''}'')")
          case True
          then have "r = ds" using a \<open>skip_ws s = c # cs\<close> Cons obj
            by (simp add: parse_value.simps[of s])
          then show ?thesis using ld lc by simp
        next
          case False
          then obtain ms where "parse_members cs = Some (ms, r)"
            using a \<open>skip_ws s = c # cs\<close> Cons obj
            by (auto simp: parse_value.simps[of s])
          then have "length r < length cs" using ihm[OF lc] by blast
          then show ?thesis using lc by simp
        qed
      qed
    next
      case arr
      show ?thesis
      proof (cases "skip_ws cs")
        case Nil
        then show ?thesis using a Cons arr by (simp add: parse_value.simps[of s])
      next
        case (Cons d ds)
        have ld: "length ds < length cs" using Cons by (rule skip_ws_Cons_length)
        show ?thesis
        proof (cases "d = of_char (CHR '']'')")
          case True
          then have "r = ds" using a \<open>skip_ws s = c # cs\<close> Cons arr
            by (simp add: parse_value.simps[of s])
          then show ?thesis using ld lc by simp
        next
          case False
          then obtain es where "parse_elements cs = Some (es, r)"
            using a \<open>skip_ws s = c # cs\<close> Cons arr
            by (auto simp: parse_value.simps[of s])
          then have "length r < length cs" using ihe[OF lc] by blast
          then show ?thesis using lc by simp
        qed
      qed
    next
      case other
      have ls: "length (c # cs) \<le> length s" using length_skip_ws[of s] Cons by simp
      have "length r < length (c # cs)"
        using a Cons other
        by (auto simp: parse_value.simps[of s] split: if_splits
              dest: literal_consumes parse_number_consumes
                    parse_chars_consumes[THEN conjunct1, rule_format])
      then show ?thesis using ls by simp
    qed
  qed
  have E: "length r < length s" if a: "parse_elements s = Some (vs, r)" for vs r
  proof -
    from a obtain v r1 where v: "parse_value s = Some (v, r1)"
      by (auto simp: parse_elements.simps[of s] split: option.splits)
    have l1: "length r1 < length s" using V v by blast
    from a v obtain c r' where sk: "skip_ws r1 = c # r'"
      by (auto simp: parse_elements.simps[of s] split: list.splits)
    have l2: "length r' < length r1" using sk by (rule skip_ws_Cons_length)
    show ?thesis
    proof (cases "c = of_char (CHR '','')")
      case True
      then obtain es where "parse_elements r' = Some (es, r)"
        using a v sk by (auto simp: parse_elements.simps[of s] cons_fst_Some split: if_splits)
      then have "length r < length r'" using ihe[of r'] l1 l2 by simp
      then show ?thesis using l1 l2 by simp
    next
      case False
      then have "r = r'" using a v sk by (auto simp: parse_elements.simps[of s] split: if_splits)
      then show ?thesis using l1 l2 by simp
    qed
  qed
  have M: "length r < length s" if a: "parse_members s = Some (ms, r)" for ms r
  proof -
    from a obtain q r0 where s0: "skip_ws s = q # r0" "q = 0x22"
      by (auto simp: parse_members.simps[of s] split: list.splits if_splits)
    have l0: "length r0 < length s" using s0(1) by (rule skip_ws_Cons_length)
    from a s0 obtain k r1 where k: "parse_chars r0 = Some (k, r1)"
      by (auto simp: parse_members.simps[of s] split: option.splits)
    have l1: "length r1 < length r0"
      using parse_chars_consumes[of r0 k r1] k by simp
    from a s0 k obtain c r2 where s2: "skip_ws r1 = c # r2" "c = of_char (CHR '':'')"
      by (auto simp: parse_members.simps[of s] split: list.splits if_splits)
    have l2: "length r2 < length r1" using s2(1) by (rule skip_ws_Cons_length)
    from a s0 k s2 obtain v r3 where v: "parse_value r2 = Some (v, r3)"
      by (auto simp: parse_members.simps[of s] split: option.splits if_splits)
    have l3: "length r3 < length r2" using ihv[of r2 v r3] v l0 l1 l2 by simp
    from a s0 k s2 v obtain d r4 where s4: "skip_ws r3 = d # r4"
      by (auto simp: parse_members.simps[of s] split: list.splits if_splits)
    have l4: "length r4 < length r3" using s4 by (rule skip_ws_Cons_length)
    show ?thesis
    proof (cases "d = of_char (CHR '','')")
      case True
      then obtain ms' where "parse_members r4 = Some (ms', r)"
        using a s0 k s2 v s4
        by (auto simp: parse_members.simps[of s] cons_fst_Some split: if_splits)
      then have "length r < length r4" using ihm[of r4] l0 l1 l2 l3 l4 by simp
      then show ?thesis using l0 l1 l2 l3 l4 by simp
    next
      case False
      then have "r = r4" using a s0 k s2 v s4
        by (auto simp: parse_members.simps[of s] split: if_splits)
      then show ?thesis using l0 l1 l2 l3 l4 by simp
    qed
  qed
  show ?case using V E M by blast
qed

lemma parse_elements_eq:
  "parse_elements s =
     (case parse_value s of
        None \<Rightarrow> None
      | Some (v, r) \<Rightarrow>
          (case skip_ws r of
             [] \<Rightarrow> None
           | c # r' \<Rightarrow> if c = of_char (CHR '','') then cons_fst v (parse_elements r')
                       else if c = of_char (CHR '']'') then Some ([v], r')
                       else None))"
proof (cases "parse_value s")
  case None
  then show ?thesis by (simp add: parse_elements.simps[of s])
next
  case (Some p)
  obtain v r where p: "p = (v, r)" by (cases p)
  have l: "length r < length s" using parse_consumes[of s] Some p by blast
  show ?thesis
  proof (cases "skip_ws r")
    case Nil
    then show ?thesis using Some p by (simp add: parse_elements.simps[of s])
  next
    case (Cons c r')
    have "length r' < length r" using Cons by (rule skip_ws_Cons_length)
    then have "length r' < length s" using l by simp
    then show ?thesis using Some p Cons by (simp add: parse_elements.simps[of s])
  qed
qed

lemma parse_members_eq:
  "parse_members s =
     (case skip_ws s of
        [] \<Rightarrow> None
      | q # r0 \<Rightarrow>
          if q = 0x22 then
            (case parse_chars r0 of
               None \<Rightarrow> None
             | Some (k, r1) \<Rightarrow>
                 (case skip_ws r1 of
                    [] \<Rightarrow> None
                  | c # r2 \<Rightarrow>
                      if c = of_char (CHR '':'') then
                        (case parse_value r2 of
                           None \<Rightarrow> None
                         | Some (v, r3) \<Rightarrow>
                             (case skip_ws r3 of
                                [] \<Rightarrow> None
                              | d # r4 \<Rightarrow> if d = of_char (CHR '','') then cons_fst (k, v) (parse_members r4)
                                          else if d = of_char (CHR ''}'') then Some ([(k, v)], r4)
                                          else None))
                      else None))
          else None)"
proof (cases "skip_ws s")
  case Nil
  then show ?thesis by (simp add: parse_members.simps[of s])
next
  case s0: (Cons q r0)
  have l0: "length r0 < length s" using s0 by (rule skip_ws_Cons_length)
  show ?thesis
  proof (cases "parse_chars r0")
    case None
    then show ?thesis using s0 by (simp add: parse_members.simps[of s])
  next
    case (Some p)
    obtain k r1 where p: "p = (k, r1)" by (cases p)
    have l1: "length r1 < length r0" using parse_chars_consumes[of r0 k r1] Some p by simp
    show ?thesis
    proof (cases "skip_ws r1")
      case Nil
      then show ?thesis using s0 Some p by (simp add: parse_members.simps[of s])
    next
      case s2: (Cons c r2)
      have l2: "length r2 < length r1" using s2 by (rule skip_ws_Cons_length)
      have g2: "length r2 < length s" using l0 l1 l2 by simp
      show ?thesis
      proof (cases "parse_value r2")
        case None
        then show ?thesis using s0 Some p s2 g2 by (simp add: parse_members.simps[of s])
      next
        case v: (Some pv)
        obtain v' r3 where pv: "pv = (v', r3)" by (cases pv)
        have l3: "length r3 < length r2" using parse_consumes[of r2] v pv by blast
        show ?thesis
        proof (cases "skip_ws r3")
          case Nil
          then show ?thesis using s0 Some p s2 g2 v pv by (simp add: parse_members.simps[of s])
        next
          case s4: (Cons d r4)
          have "length r4 < length r3" using s4 by (rule skip_ws_Cons_length)
          then have g4: "length r4 < length s" using l3 g2 by simp
          show ?thesis using s0 Some p s2 g2 v pv s4 g4 by (simp add: parse_members.simps[of s])
        qed
      qed
    qed
  qed
qed

lemma string_prefix_of_length:
  "string_prefix_of p n = Some s \<Longrightarrow> length s \<le> n"
  by (auto simp: string_prefix_of_def split: option.splits json.splits)

lemma string_prefix_of_string:
  "string_prefix_of (Some (JString s)) n = Some (take n s)"
  by (simp add: string_prefix_of_def)

lemma string_prefix_of_other:
  "(\<forall>s. p \<noteq> Some (JString s)) \<Longrightarrow> string_prefix_of p n = None"
  by (auto simp: string_prefix_of_def split: option.splits json.splits)

lemma defaultExplanation_length: "length defaultExplanation = 68"
  by (simp add: defaultExplanation_def js_string_def)

text \<open>
  Claim C7, as amended.  The payload is any sequence of code units.  A payload that is
  not valid JSON makes \<open>parseLLMResponse\<close> throw the \<open>SyntaxError\<close> of \<open>JSON.parse\<close>,
  and the payload \<open>null\<close> makes it throw a \<open>TypeError\<close>; neither is turned into
  defaults.  For every other payload the result has a \<open>residentMessage\<close> of at most 200
  code units, a \<open>staffMessage\<close> of at most 300 and an \<open>explanationText\<close> of at most
  500: each is the prefix of that length of the property when the property is a string;
  otherwise the two messages are null and the explanation is the fixed default sentence.
\<close>

theorem parseLLMResponse_outcomes:
  "(case JSON_parse (cleaned raw) of
      None \<Rightarrow> parseLLMResponse raw = Inl SyntaxError
    | Some parsed \<Rightarrow>
        if parsed = JNull then parseLLMResponse raw = Inl TypeError
        else (\<exists>m. parseLLMResponse raw = Inr m \<and>
               (case residentMessage m of None \<Rightarrow> True | Some s \<Rightarrow> length s \<le> 200) \<and>
               (case staffMessage m of None \<Rightarrow> True | Some s \<Rightarrow> length s \<le> 300) \<and>
               length (explanationText m) \<le> 500 \<and>
               (\<forall>s. get_property parsed ''residentMessage'' = Some (JString s) \<longrightarrow>
                      residentMessage m = Some (take 200 s)) \<and>
               ((\<forall>s. get_property parsed ''residentMessage'' \<noteq> Some (JString s)) \<longrightarrow>
                      residentMessage m = None) \<and>
               (\<forall>s. get_property parsed ''staffMessage'' = Some (JString s) \<longrightarrow>
                      staffMessage m = Some (take 300 s)) \<and>
               ((\<forall>s. get_property parsed ''staffMessage'' \<noteq> Some (JString s)) \<longrightarrow>
                      staffMessage m = None) \<and>
               (\<forall>s. get_property parsed ''explanationText'' = Some (JString s) \<longrightarrow>
                      explanationText m = take 500 s) \<and>
               ((\<forall>s. get_property parsed ''explanationText'' \<noteq> Some (JString s)) \<longrightarrow>
                      explanationText m
                        = js_string ''The system is monitoring the resident based on current observations.'')))"
proof (cases "JSON_parse (cleaned raw)")
  case None
  then show ?thesis by (simp add: parseLLMResponse_def)
next
  case (Some parsed)
  show ?thesis
  proof (cases "parsed = JNull")
    case True
    then show ?thesis using Some by (simp add: parseLLMResponse_def)
  next
    case False
    let ?m = "\<lparr>residentMessage = string_prefix_of (get_property parsed ''residentMessage'') 200,
             staffMessage = string_prefix_of (get_property parsed ''staffMessage'') 300,
             explanationText =
               (case string_prefix_of (get_property parsed ''explanationText'') 500 of
                  Some s \<Rightarrow> s
                | None \<Rightarrow> defaultExplanation)\<rparr>"
    have r: "parseLLMResponse raw = Inr ?m"
      using Some False by (simp add: parseLLMResponse_def)
    have c1: "case residentMessage ?m of None \<Rightarrow> True | Some s \<Rightarrow> length s \<le> 200"
      by (auto split: option.splits dest: string_prefix_of_length)
    have c2: "case staffMessage ?m of None \<Rightarrow> True | Some s \<Rightarrow> length s \<le> 300"
      by (auto split: option.splits dest: string_prefix_of_length)
    have c3: "length (explanationText ?m) \<le> 500"
      by (auto split: option.splits dest: string_prefix_of_length simp: defaultExplanation_length)
    have f: "\<forall>s. get_property parsed ''residentMessage'' = Some (JString s) \<longrightarrow>
                      residentMessage ?m = Some (take 200 s)"
      "(\<forall>s. get_property parsed ''residentMessage'' \<noteq> Some (JString s)) \<longrightarrow>
                      residentMessage ?m = None"
      "\<forall>s. get_property parsed ''staffMessage'' = Some (JString s) \<longrightarrow>
                      staffMessage ?m = Some (take 300 s)"
      "(\<forall>s. get_property parsed ''staffMessage'' \<noteq> Some (JString s)) \<longrightarrow>
                      staffMessage ?m = None"
      "\<forall>s. get_property parsed ''explanationText'' = Some (JString s) \<longrightarrow>
                      explanationText ?m = take 500 s"
      "(\<forall>s. get_property parsed ''explanationText'' \<noteq> Some (JString s)) \<longrightarrow>
                      explanationText ?m
                        = js_string ''The system is monitoring the resident based on current observations.''"
      by (simp_all add: string_prefix_of_string string_prefix_of_other defaultExplanation_def)
    have "\<exists>m. parseLLMResponse raw = Inr m \<and>
               (case residentMessage m of None \<Rightarrow> True | Some s \<Rightarrow> length s \<le> 200) \<and>
               (case staffMessage m of None \<Rightarrow> True | Some s \<Rightarrow> length s \<le> 300) \<and>
               length (explanationText m) \<le> 500 \<and>
               (\<forall>s. get_property parsed ''residentMessage'' = Some (JString s) \<longrightarrow>
                      residentMessage m = Some (take 200 s)) \<and>
               ((\<forall>s. get_property parsed ''residentMessage'' \<noteq> Some (JString s)) \<longrightarrow>
                      residentMessage m = None) \<and>
               (\<forall>s. get_property parsed ''staffMessage'' = Some (JString s) \<longrightarrow>
                      staffMessage m = Some (take 300 s)) \<and>
               ((\<forall>s. get_property parsed ''staffMessage'' \<noteq> Some (JString s)) \<longrightarrow>
                      staffMessage m = None) \<and>
               (\<forall>s. get_property parsed ''explanationText'' = Some (JString s) \<longrightarrow>
                      explanationText m = take 500 s) \<and>
               ((\<forall>s. get_property parsed ''explanationText'' \<noteq> Some (JString s)) \<longrightarrow>
                      explanationText m
                        = js_string ''The system is monitoring the resident based on current observations.'')"
      by (rule exI[of _ ?m]) (intro conjI r c1 c2 c3 f)
    then show ?thesis using Some False by simp
  qed
qed

lemma replicate_unfold: "replicate (numeral k) x = x # replicate (pred_numeral k) x"
  by (simp add: numeral_eq_Suc)

lemmas parse_eval = JSON_parse_def cleaned_def trim_def skip_ws_def is_json_ws_def is_js_space_def
  js_string_def parse_elements_eq parse_members_eq cons_fst_def unicode_escape_def hex_digit_def
  unescape_def literal_def parse_number_def parse_int_def parse_frac_def parse_exp_def
  digits1_def is_digit_def Let_def

theorem parseLLMResponse_outcomes_witness:
  \<open>JSON_parse (cleaned (js_string ''```json'' @ [0x0A]
       @ js_string ''{"resident'' @ [0x5C] @ js_string ''u014Dessage": "no", "residentMessage": "''
       @ replicate 250 0x4E2D
       @ js_string ''", "staffMessage": "caf'' @ [0xE9, 0x5C] @ js_string ''u4e2D", "explanationText": 5}''
       @ [0x0A] @ js_string ''```''))
     = Some (JObject [(js_string ''resident'' @ [0x14D] @ js_string ''essage'', JString (js_string ''no'')),
                      (js_string ''residentMessage'', JString (replicate 250 0x4E2D)),
                      (js_string ''staffMessage'', JString (js_string ''caf'' @ [0xE9, 0x4E2D])),
                      (js_string ''explanationText'', JNumber (js_string ''5''))]) \<and>
   parseLLMResponse (js_string ''```json'' @ [0x0A]
       @ js_string ''{"resident'' @ [0x5C] @ js_string ''u014Dessage": "no", "residentMessage": "''
       @ replicate 250 0x4E2D
       @ js_string ''", "staffMessage": "caf'' @ [0xE9, 0x5C] @ js_string ''u4e2D", "explanationText": 5}''
       @ [0x0A] @ js_string ''```'')
     = Inr \<lparr>residentMessage = Some (replicate 200 0x4E2D),
            staffMessage = Some (js_string ''caf'' @ [0xE9, 0x4E2D]),
            explanationText = js_string ''The system is monitoring the resident based on current observations.''\<rparr>\<close>
proof -
  let ?raw = \<open>js_string ''```json'' @ [0x0A]
       @ js_string ''{"resident'' @ [0x5C] @ js_string ''u014Dessage": "no", "residentMessage": "''
       @ replicate 250 0x4E2D
       @ js_string ''", "staffMessage": "caf'' @ [0xE9, 0x5C] @ js_string ''u4e2D", "explanationText": 5}''
       @ [0x0A] @ js_string ''```''\<close>
  let ?obj = "JObject [(js_string ''resident'' @ [0x14D] @ js_string ''essage'', JString (js_string ''no'')),
                      (js_string ''residentMessage'', JString (replicate 250 0x4E2D)),
                      (js_string ''staffMessage'', JString (js_string ''caf'' @ [0xE9, 0x4E2D])),
                      (js_string ''explanationText'', JNumber (js_string ''5''))]"
  have p: "JSON_parse (cleaned ?raw) = Some ?obj"
    by (simp add: parse_eval replicate_unfold)
  have g: "get_property ?obj ''residentMessage'' = Some (JString (replicate 250 0x4E2D))"
     "get_property ?obj ''staffMessage'' = Some (JString (js_string ''caf'' @ [0xE9, 0x4E2D]))"
     "get_property ?obj ''explanationText'' = Some (JNumber (js_string ''5''))"
    by (simp_all add: get_property_def js_string_def)
  from parseLLMResponse_outcomes[of ?raw, unfolded p option.case g] obtain m where
    m: "parseLLMResponse ?raw = Inr m" "residentMessage m = Some (take 200 (replicate 250 0x4E2D))"
       "staffMessage m = Some (take 300 (js_string ''caf'' @ [0xE9, 0x4E2D]))"
       "explanationText m = js_string ''The system is monitoring the resident based on current observations.''"
    by auto
  have "m = \<lparr>residentMessage = Some (replicate 200 0x4E2D),
            staffMessage = Some (js_string ''caf'' @ [0xE9, 0x4E2D]),
            explanationText = js_string ''The system is monitoring the resident based on current observations.''\<rparr>"
    using m(2-4) by (cases m) (simp add: js_string_def)
  with m(1) p show ?thesis by simp
qed

text \<open>
  The claim as stated fails: a truncated object, a reply in prose and the empty reply are
  not turned into defaults but thrown as a \<open>SyntaxError\<close>.
\<close>

theorem parseLLMResponse_malformed_counterexample:
  \<open>parseLLMResponse (js_string ''{"residentMessage": "Take your time'') = Inl SyntaxError \<and>
   parseLLMResponse (js_string ''Sorry, I cannot help with that.'') = Inl SyntaxError \<and>
   parseLLMResponse (js_string '''') = Inl SyntaxError\<close>
  by (simp add: parseLLMResponse_def parse_eval)

section \<open>Properties of the controller\<close>

lemma inv_create: "ctrl_inv (createLLMController ms)"
  by (simp add: ctrl_inv_def createLLMController_def)

lemma clearTimer_eq: "ctrl_inv c \<Longrightarrow> clearTimer c = c\<lparr>timeouts := [], timerId := None\<rparr>"
proof (cases "timerId c")
  case None
  assume "ctrl_inv c"
  then have "timeouts c = []" using None by (simp add: ctrl_inv_def)
  then show ?thesis using None by (simp add: clearTimer_def)
next
  case (Some h)
  assume "ctrl_inv c"
  then have "map fst (timeouts c) = [h]" using Some by (simp add: ctrl_inv_def)
  then have "\<forall>t \<in> set (timeouts c). fst t = h"
    by (metis (no_types, lifting) image_iff list.set_map list.simps(15) empty_set singletonD)
  then have "filter (\<lambda>t. fst t \<noteq> h) (timeouts c) = []"
    by (simp add: filter_empty_conv)
  then show ?thesis using Some by (simp add: clearTimer_def clearTimeout_def)
qed

lemma inv_clearTimer: "ctrl_inv c \<Longrightarrow> ctrl_inv (clearTimer c)"
proof -
  assume a: "ctrl_inv c"
  then have "ctrl_inv (c\<lparr>timeouts := [], timerId := None\<rparr>)" by (simp add: ctrl_inv_def)
  then show ?thesis using clearTimer_eq[OF a] by simp
qed

lemma inv_abortInflight: "ctrl_inv c \<Longrightarrow> ctrl_inv (abortInflight c)"
  by (auto simp: ctrl_inv_def abortInflight_def split: option.splits)

lemma live_abortInflight: "ctrl_inv c \<Longrightarrow> live (abortInflight c) = []"
  by (auto simp: ctrl_inv_def live_def abortInflight_def filter_empty_conv split: option.splits)

lemma abortInflight_fields:
  "inflight (abortInflight c) = inflight c" "nextCtrl (abortInflight c) = nextCtrl c"
  "aborted c \<subseteq> aborted (abortInflight c)" "abortCtrl (abortInflight c) = None"
  "timerId (abortInflight c) = timerId c" "callbacks (abortInflight c) = callbacks c"
  "fetched (abortInflight c) = fetched c"
  by (auto simp: abortInflight_def split: option.splits)

lemma inv_execute: "ctrl_inv c \<Longrightarrow> ctrl_inv (execute q c)"
  by (auto simp: ctrl_inv_def execute_def Let_def abortInflight_def split: option.splits)

lemma inv_drop: "ctrl_inv c \<Longrightarrow> ctrl_inv (c\<lparr>inflight := filter (\<lambda>p. fst p \<noteq> t) (inflight c)\<rparr>)"
  by (simp add: ctrl_inv_def distinct_map_filter)

lemma inv_settle: "ctrl_inv c \<Longrightarrow> ctrl_inv (settle t out c)"
proof -
  assume a: "ctrl_inv c"
  let ?d = "c\<lparr>inflight := filter (\<lambda>p. fst p \<noteq> t) (inflight c)\<rparr>"
  have d: "ctrl_inv ?d" using a by (rule inv_drop)
  have u: "ctrl_inv (?d\<lparr>calls := n, currentStatus := s, callbacks := cb\<rparr>)" for n s cb
    using d by (simp add: ctrl_inv_def)
  have v: "ctrl_inv (?d\<lparr>currentStatus := s, callbacks := cb\<rparr>)" for s cb
    using d by (simp add: ctrl_inv_def)
  show ?thesis
    unfolding settle_def Let_def
    by (simp add: a d u v split: option.splits outcome.splits)
qed

lemma request_eq:
  "ctrl_inv c \<Longrightarrow>
   request q c = c\<lparr>nextTimer := Suc (nextTimer c),
                     timeouts := [(nextTimer c, now c + debounceMs c, q)],
                     timerId := Some (nextTimer c)\<rparr>"
  by (simp add: request_def Let_def clearTimer_eq)

lemma inv_request: "ctrl_inv c \<Longrightarrow> ctrl_inv (request q c)"
proof -
  assume a: "ctrl_inv c"
  then show ?thesis unfolding request_eq[OF a] by (simp add: ctrl_inv_def)
qed

lemma scheduled_is_timerId:
  "ctrl_inv c \<Longrightarrow> map_of (timeouts c) h = Some tm \<Longrightarrow> timerId c = Some h"
proof -
  assume a: "ctrl_inv c" and m: "map_of (timeouts c) h = Some tm"
  from m have "(h, tm) \<in> set (timeouts c)" by (rule map_of_SomeD)
  then have hm: "h \<in> set (map fst (timeouts c))" by force
  show ?thesis
  proof (cases "timerId c")
    case None
    then have "map fst (timeouts c) = []" using a by (simp add: ctrl_inv_def)
    with hm show ?thesis by simp
  next
    case (Some k)
    then have e: "map fst (timeouts c) = [k]" using a by (simp add: ctrl_inv_def)
    from hm have "h \<in> set [k]" unfolding e .
    then show ?thesis using Some by simp
  qed
qed

lemma fired_eq:
  "ctrl_inv c \<Longrightarrow> map_of (timeouts c) h = Some tm \<Longrightarrow>
   c\<lparr>timeouts := filter (\<lambda>t. fst t \<noteq> h) (timeouts c), timerId := None\<rparr>
     = c\<lparr>timeouts := [], timerId := None\<rparr>"
proof -
  assume a: "ctrl_inv c" and m: "map_of (timeouts c) h = Some tm"
  have t: "timerId c = Some h" using a m by (rule scheduled_is_timerId)
  have "clearTimer c = c\<lparr>timeouts := filter (\<lambda>t. fst t \<noteq> h) (timeouts c), timerId := None\<rparr>"
    using t by (simp add: clearTimer_def clearTimeout_def)
  then show ?thesis using clearTimer_eq[OF a] by simp
qed

lemma inv_timerFires: "ctrl_inv c \<Longrightarrow> ctrl_inv (timerFires h c)"
proof -
  assume a: "ctrl_inv c"
  have n: "ctrl_inv (c\<lparr>timeouts := [], timerId := None\<rparr>)" using a by (simp add: ctrl_inv_def)
  show ?thesis
  proof (cases "map_of (timeouts c) h")
    case None
    then show ?thesis using a by (simp add: timerFires_def)
  next
    case (Some tm)
    show ?thesis
      using a n Some by (simp add: timerFires_def fired_eq[OF a Some] inv_execute)
  qed
qed

lemma inv_forceRequest: "ctrl_inv c \<Longrightarrow> ctrl_inv (forceRequest q c)"
  by (simp add: forceRequest_def inv_execute inv_clearTimer)

lemma inv_stopAll: "ctrl_inv c \<Longrightarrow> ctrl_inv (stopAll c)"
proof -
  assume "ctrl_inv c"
  then have "ctrl_inv (abortInflight (clearTimer c))"
    by (simp add: inv_abortInflight inv_clearTimer)
  then show ?thesis by (simp add: stopAll_def ctrl_inv_def)
qed

lemma inv_elapse: "ctrl_inv c \<Longrightarrow> ctrl_inv (elapse ms c)"
  by (simp add: ctrl_inv_def elapse_def)

lemma inv_step: "ctrl_inv c \<Longrightarrow> ctrl_inv (step c ev)"
  by (cases ev) (simp_all add: inv_request inv_forceRequest inv_stopAll inv_elapse inv_timerFires inv_settle)

lemma inv_run: "ctrl_inv c \<Longrightarrow> ctrl_inv (run c evs)"
  unfolding run_def by (induction evs arbitrary: c) (simp_all add: inv_step)

lemma inv_reachable: "ctrl_inv (run (createLLMController ms) evs)"
  by (simp add: inv_run inv_create)

lemma inv_live_le1: "ctrl_inv c \<Longrightarrow> length (live c) \<le> 1"
proof -
  assume a: "ctrl_inv c"
  have d: "distinct (map fst (live c))"
    using a by (simp add: ctrl_inv_def live_def distinct_map_filter)
  have "set (map fst (live c)) \<subseteq> set_option (abortCtrl c)"
    using a by (auto simp: ctrl_inv_def live_def)
  then have "card (set (map fst (live c))) \<le> card (set_option (abortCtrl c))"
    by (intro card_mono) (auto)
  also have "\<dots> \<le> 1" by (cases "abortCtrl c") simp_all
  finally have "card (set (map fst (live c))) \<le> 1" .
  moreover have "card (set (map fst (live c))) = length (map fst (live c))"
    using d by (rule distinct_card)
  ultimately show ?thesis by simp
qed

lemma live_execute: "ctrl_inv c \<Longrightarrow> live (execute q c) = [(nextCtrl c, q)]"
  by (auto simp: ctrl_inv_def live_def execute_def Let_def abortInflight_def filter_empty_conv split: option.splits)

lemma debounce_step: "debounceMs (step c ev) = debounceMs c"
  by (cases ev)
     (auto simp: request_def forceRequest_def stopAll_def elapse_def timerFires_def settle_def
        execute_def abortInflight_def clearTimer_def clearTimeout_def Let_def split: option.splits outcome.splits)

lemma debounce_run: "debounceMs (run c evs) = debounceMs c"
  unfolding run_def by (induction evs arbitrary: c) (simp_all add: debounce_step)

lemma debounce_reachable: "debounceMs (run (createLLMController ms) evs) = ms"
  by (simp add: debounce_run createLLMController_def)

lemma live_forceRequest: "ctrl_inv c \<Longrightarrow> live (forceRequest q c) = [(nextCtrl c, q)]"
proof -
  assume "ctrl_inv c"
  then have "ctrl_inv (clearTimer c)" by (rule inv_clearTimer)
  then have "live (execute q (clearTimer c)) = [(nextCtrl (clearTimer c), q)]"
    by (rule live_execute)
  then show ?thesis using clearTimer_eq[OF \<open>ctrl_inv c\<close>] by (simp add: forceRequest_def)
qed

lemma live_timerFires:
  "ctrl_inv c \<Longrightarrow> map_of (timeouts c) h = Some (due, q) \<Longrightarrow> due \<le> now c \<Longrightarrow>
   live (timerFires h c) = [(nextCtrl c, q)]"
proof -
  assume a: "ctrl_inv c" and t: "map_of (timeouts c) h = Some (due, q)" and d: "due \<le> now c"
  have "ctrl_inv (c\<lparr>timeouts := [], timerId := None\<rparr>)" using a by (simp add: ctrl_inv_def)
  then have "live (execute q (c\<lparr>timeouts := [], timerId := None\<rparr>))
               = [(nextCtrl (c\<lparr>timeouts := [], timerId := None\<rparr>), q)]"
    by (rule live_execute)
  then show ?thesis using t d by (simp add: timerFires_def fired_eq[OF a t])
qed

lemma one_timeout: "ctrl_inv c \<Longrightarrow> length (timeouts c) \<le> 1"
proof -
  assume "ctrl_inv c"
  then have "length (map fst (timeouts c)) \<le> 1"
    by (cases "timerId c") (simp_all add: ctrl_inv_def)
  then show ?thesis by simp
qed

lemma live_stopAll: "ctrl_inv c \<Longrightarrow> live (stopAll c) = []"
proof -
  assume "ctrl_inv c"
  then have "live (abortInflight (clearTimer c)) = []"
    by (simp add: live_abortInflight inv_clearTimer)
  then show ?thesis by (simp add: stopAll_def live_def)
qed

lemma request_twice:
  assumes i: "ctrl_inv c" and e: "e < debounceMs c"
  shows "run c [Request a, Elapse e, TimerFires (nextTimer c), Request b]
           = c\<lparr>nextTimer := Suc (Suc (nextTimer c)),
                timeouts := [(Suc (nextTimer c), now c + e + debounceMs c, b)],
                timerId := Some (Suc (nextTimer c)),
                now := now c + e\<rparr>"
proof -
  let ?c1 = "request a c"
  have r1: "?c1 = c\<lparr>nextTimer := Suc (nextTimer c),
                      timeouts := [(nextTimer c, now c + debounceMs c, a)],
                      timerId := Some (nextTimer c)\<rparr>"
    using i by (rule request_eq)
  let ?c2 = "timerFires (nextTimer c) (elapse e ?c1)"
  have r2: "?c2 = elapse e ?c1"
    using e by (simp add: r1 timerFires_def elapse_def)
  have i2: "ctrl_inv (elapse e ?c1)"
    using i by (simp add: inv_elapse inv_request)
  have "request b (elapse e ?c1)
          = (elapse e ?c1)\<lparr>nextTimer := Suc (nextTimer (elapse e ?c1)),
               timeouts := [(nextTimer (elapse e ?c1),
                             now (elapse e ?c1) + debounceMs (elapse e ?c1), b)],
               timerId := Some (nextTimer (elapse e ?c1))\<rparr>"
    using i2 by (rule request_eq)
  then have "request b ?c2
          = c\<lparr>nextTimer := Suc (Suc (nextTimer c)),
               timeouts := [(Suc (nextTimer c), now c + e + debounceMs c, b)],
               timerId := Some (Suc (nextTimer c)),
               now := now c + e\<rparr>"
    unfolding r2 by (simp add: r1 elapse_def)
  then show ?thesis by (simp add: run_def)
qed

lemma none_pending_step:
  "timeouts c = [] \<Longrightarrow> quiet ev \<Longrightarrow>
   timeouts (step c ev) = [] \<and> fetched (step c ev) = fetched c"
  by (cases ev)
     (auto simp: stopAll_def elapse_def timerFires_def settle_def abortInflight_def
        clearTimer_def clearTimeout_def Let_def split: option.splits outcome.splits)

lemma none_pending_quiet:
  "timeouts c = [] \<Longrightarrow> list_all quiet evs \<Longrightarrow> fetched (run c evs) = fetched c"
proof (induction evs arbitrary: c)
  case Nil
  then show ?case by (simp add: run_def)
next
  case (Cons ev evs)
  from Cons.prems have s: "timeouts (step c ev) = [] \<and> fetched (step c ev) = fetched c"
    by (simp add: none_pending_step)
  from Cons.prems have "list_all quiet evs" by simp
  with s Cons.IH[of "step c ev"] show ?case by (simp add: run_def)
qed

lemma one_pending_step:
  assumes "timeouts c = [(h, due, q)]" "quiet ev"
  shows "(timeouts (step c ev) = [(h, due, q)] \<and> fetched (step c ev) = fetched c \<and>
          nextCtrl (step c ev) = nextCtrl c) \<or>
         (timeouts (step c ev) = [] \<and>
          (fetched (step c ev) = fetched c \<or> fetched (step c ev) = fetched c @ [(nextCtrl c, q)]))"
proof (cases ev)
  case (TimerFires h')
  then show ?thesis using assms(1)
    by (auto simp: timerFires_def execute_def abortInflight_def clearTimeout_def Let_def
          split: option.splits)
next
  case StopAll
  then show ?thesis using assms(1)
    by (auto simp: stopAll_def abortInflight_def clearTimer_def clearTimeout_def
          split: option.splits)
next
  case (Settles t out)
  then show ?thesis using assms(1)
    by (auto simp: settle_def Let_def split: option.splits outcome.splits)
qed (use assms in \<open>auto simp: elapse_def\<close>)

lemma one_pending_quiet:
  "timeouts c = [(h, due, q)] \<Longrightarrow> list_all quiet evs \<Longrightarrow>
   fetched (run c evs) = fetched c \<or> fetched (run c evs) = fetched c @ [(nextCtrl c, q)]"
proof (induction evs arbitrary: c)
  case Nil
  then show ?case by (simp add: run_def)
next
  case (Cons ev evs)
  from Cons.prems have q: "quiet ev" and qs: "list_all quiet evs" by simp_all
  have r: "run c (ev # evs) = run (step c ev) evs" by (simp add: run_def)
  from one_pending_step[OF Cons.prems(1) q]
  show ?case
  proof
    assume a: "timeouts (step c ev) = [(h, due, q)] \<and> fetched (step c ev) = fetched c \<and>
               nextCtrl (step c ev) = nextCtrl c"
    then show ?thesis using Cons.IH[of "step c ev"] qs unfolding r by auto
  next
    assume a: "timeouts (step c ev) = [] \<and>
          (fetched (step c ev) = fetched c \<or> fetched (step c ev) = fetched c @ [(nextCtrl c, q)])"
    then have "fetched (run (step c ev) evs) = fetched (step c ev)"
      using qs by (simp add: none_pending_quiet)
    then show ?thesis using a unfolding r by auto
  qed
qed

lemma second_fires:
  assumes i: "ctrl_inv c" and e: "e < debounceMs c"
  shows "fetched (run (run c [Request a, Elapse e, TimerFires (nextTimer c), Request b])
                    [Elapse (debounceMs c), TimerFires (nextTimer c),
                     TimerFires (Suc (nextTimer c))])
           = fetched c @ [(nextCtrl c, b)] \<and>
         timeouts (run (run c [Request a, Elapse e, TimerFires (nextTimer c), Request b])
                    [Elapse (debounceMs c), TimerFires (nextTimer c),
                     TimerFires (Suc (nextTimer c))]) = [] \<and>
         timerId (run (run c [Request a, Elapse e, TimerFires (nextTimer c), Request b])
                    [Elapse (debounceMs c), TimerFires (nextTimer c),
                     TimerFires (Suc (nextTimer c))]) = None"
  unfolding request_twice[OF i e]
  by (simp add: run_def elapse_def timerFires_def clearTimeout_def execute_def
        abortInflight_def Let_def split: option.splits)

text \<open>
  Claim C1.  In every state the controller can reach, at most one call in flight has a
  cancellation signal that is not triggered, and at most one timeout is scheduled.  Every
  start of a call, be it by \<open>execute\<close> itself, by \<open>forceRequest\<close> or by the callback of
  a timeout that \<open>request\<close> has scheduled, aborts the predecessor first, so that the new
  call is the only one not cancelled, and \<open>stopAll\<close> leaves none.

  Two calls of \<open>request\<close> less than the debounce delay apart lead to exactly one network
  call, the one of the second request.  The timeout of the first request is not yet due
  when the runtime is asked to run it, and the \<open>clearTimeout\<close> of the second request takes
  it off the schedule: what remains scheduled is the timeout of the second request alone.
  Whatever happens next short of a new request (the runtime running the callback of
  either handle at any time, time passing, calls settling, \<open>stopAll\<close>), the network calls
  issued are none or the one of the second request; and once the delay has passed and the
  runtime runs the callbacks of both handles, exactly the call of the second request has
  been issued and nothing remains scheduled.
\<close>

theorem controller_single_inflight:
  "length (live (run (createLLMController ms) evs)) \<le> 1 \<and>
   length (timeouts (run (createLLMController ms) evs)) \<le> 1 \<and>
   live (execute q (run (createLLMController ms) evs))
     = [(nextCtrl (run (createLLMController ms) evs), q)] \<and>
   live (forceRequest q (run (createLLMController ms) evs))
     = [(nextCtrl (run (createLLMController ms) evs), q)] \<and>
   (map_of (timeouts (run (createLLMController ms) evs)) h = Some (due, q) \<and>
    due \<le> now (run (createLLMController ms) evs) \<longrightarrow>
      live (timerFires h (run (createLLMController ms) evs))
        = [(nextCtrl (run (createLLMController ms) evs), q)]) \<and>
   live (stopAll (run (createLLMController ms) evs)) = [] \<and>
   (e < ms \<longrightarrow>
      timeouts (run (run (createLLMController ms) evs)
                  [Request a, Elapse e,
                   TimerFires (nextTimer (run (createLLMController ms) evs)), Request b])
        = [(Suc (nextTimer (run (createLLMController ms) evs)),
            now (run (createLLMController ms) evs) + e + ms, b)] \<and>
      fetched (run (run (createLLMController ms) evs)
                 [Request a, Elapse e,
                  TimerFires (nextTimer (run (createLLMController ms) evs)), Request b])
        = fetched (run (createLLMController ms) evs) \<and>
      (list_all quiet later \<longrightarrow>
         fetched (run (run (run (createLLMController ms) evs)
                         [Request a, Elapse e,
                          TimerFires (nextTimer (run (createLLMController ms) evs)), Request b])
                    later)
           = fetched (run (createLLMController ms) evs) \<or>
         fetched (run (run (run (createLLMController ms) evs)
                         [Request a, Elapse e,
                          TimerFires (nextTimer (run (createLLMController ms) evs)), Request b])
                    later)
           = fetched (run (createLLMController ms) evs)
               @ [(nextCtrl (run (createLLMController ms) evs), b)]) \<and>
      fetched (run (run (run (createLLMController ms) evs)
                      [Request a, Elapse e,
                       TimerFires (nextTimer (run (createLLMController ms) evs)), Request b])
                 [Elapse ms, TimerFires (nextTimer (run (createLLMController ms) evs)),
                  TimerFires (Suc (nextTimer (run (createLLMController ms) evs)))])
        = fetched (run (createLLMController ms) evs)
            @ [(nextCtrl (run (createLLMController ms) evs), b)] \<and>
      timeouts (run (run (run (createLLMController ms) evs)
                      [Request a, Elapse e,
                       TimerFires (nextTimer (run (createLLMController ms) evs)), Request b])
                 [Elapse ms, TimerFires (nextTimer (run (createLLMController ms) evs)),
                  TimerFires (Suc (nextTimer (run (createLLMController ms) evs)))]) = [] \<and>
      timerId (run (run (run (createLLMController ms) evs)
                      [Request a, Elapse e,
                       TimerFires (nextTimer (run (createLLMController ms) evs)), Request b])
                 [Elapse ms, TimerFires (nextTimer (run (createLLMController ms) evs)),
                  TimerFires (Suc (nextTimer (run (createLLMController ms) evs)))]) = None)"
proof -
  let ?c = "run (createLLMController ms) evs"
  let ?d = "run ?c [Request a, Elapse e, TimerFires (nextTimer ?c), Request b]"
  have i: "ctrl_inv ?c" by (rule inv_reachable)
  have d: "debounceMs ?c = ms" by (rule debounce_reachable)
  have c1: "length (live ?c) \<le> 1" using i by (rule inv_live_le1)
  have c2: "length (timeouts ?c) \<le> 1" using i by (rule one_timeout)
  have c3: "live (execute q ?c) = [(nextCtrl ?c, q)]" using i by (rule live_execute)
  have c4: "live (forceRequest q ?c) = [(nextCtrl ?c, q)]" using i by (rule live_forceRequest)
  have c5: "map_of (timeouts ?c) h = Some (due, q) \<and> due \<le> now ?c \<longrightarrow>
            live (timerFires h ?c) = [(nextCtrl ?c, q)]"
    using live_timerFires[OF i, of h due q] by blast
  have c6: "live (stopAll ?c) = []" using i by (rule live_stopAll)
  have c7: "timeouts ?d = [(Suc (nextTimer ?c), now ?c + e + ms, b)] \<and>
            fetched ?d = fetched ?c \<and>
            (list_all quiet later \<longrightarrow>
               fetched (run ?d later) = fetched ?c \<or>
               fetched (run ?d later) = fetched ?c @ [(nextCtrl ?c, b)]) \<and>
            fetched (run ?d [Elapse ms, TimerFires (nextTimer ?c), TimerFires (Suc (nextTimer ?c))])
              = fetched ?c @ [(nextCtrl ?c, b)] \<and>
            timeouts (run ?d [Elapse ms, TimerFires (nextTimer ?c), TimerFires (Suc (nextTimer ?c))])
              = [] \<and>
            timerId (run ?d [Elapse ms, TimerFires (nextTimer ?c), TimerFires (Suc (nextTimer ?c))])
              = None"
    if e: "e < ms"
  proof -
    have e': "e < debounceMs ?c" using e d by simp
    note rq = request_twice[OF i e', of a b]
    have t: "timeouts ?d = [(Suc (nextTimer ?c), now ?c + e + ms, b)]"
      and f: "fetched ?d = fetched ?c" and n: "nextCtrl ?d = nextCtrl ?c"
      unfolding rq by (simp_all add: d)
    have l: "list_all quiet later \<longrightarrow>
               fetched (run ?d later) = fetched ?c \<or>
               fetched (run ?d later) = fetched ?c @ [(nextCtrl ?c, b)]"
      using one_pending_quiet[OF t, of later] f n by simp
    show ?thesis using t f l second_fires[OF i e', of a b] unfolding d by simp
  qed
  show ?thesis using c1 c2 c3 c4 c5 c6 c7 by blast
qed

lemmas ctl_defs = run_def request_def forceRequest_def stopAll_def elapse_def timerFires_def
  settle_def execute_def abortInflight_def clearTimer_def clearTimeout_def
  createLLMController_def live_def status_def callCount_def Let_def

theorem controller_single_inflight_witness:
  "timeouts (run (createLLMController 600) [ForceRequest (1::nat), Request 7, Elapse 600])
     = [(0, 600, 7)] \<and>
   map_of (timeouts (run (createLLMController 600) [ForceRequest (1::nat), Request 7, Elapse 600])) 0
     = Some (600, 7) \<and>
   600 \<le> now (run (createLLMController 600) [ForceRequest (1::nat), Request 7, Elapse 600]) \<and>
   live (timerFires 0 (run (createLLMController 600) [ForceRequest (1::nat), Request 7, Elapse 600]))
     = [(1, 7)] \<and>
   (100::nat) < 600 \<and>
   timeouts (run (run (createLLMController 600) [ForceRequest (1::nat), Request 7, Elapse 600])
               [Request 3, Elapse 100, TimerFires 1, Request 4])
     = [(2, 1300, 4)] \<and>
   list_all quiet [Elapse 500, TimerFires 1, TimerFires 2, Elapse 100, TimerFires 1,
                   TimerFires 2, Settles 0 (Rejected \<lparr>JsError.name = ''AbortError'', message = ''''\<rparr>),
                   TimerFires 2 :: nat event] \<and>
   fetched (run (run (run (createLLMController 600) [ForceRequest (1::nat), Request 7, Elapse 600])
                   [Request 3, Elapse 100, TimerFires 1, Request 4])
              [Elapse 500, TimerFires 1, TimerFires 2, Elapse 100, TimerFires 1,
               TimerFires 2, Settles 0 (Rejected \<lparr>JsError.name = ''AbortError'', message = ''''\<rparr>),
               TimerFires 2])
     = [(0, 1), (1, 4)] \<and>
   fetched (run (run (run (createLLMController 600) [ForceRequest (1::nat), Request 7, Elapse 600])
                   [Request 3, Elapse 100, TimerFires 1, Request 4])
              [Elapse 600, TimerFires 1, TimerFires 2])
     = [(0, 1), (1, 4)]"
  using controller_single_inflight
    [of 600 "[ForceRequest (1::nat), Request 7, Elapse 600]" 7 0 600 100 3 4
        "[Elapse 500, TimerFires 1, TimerFires 2, Elapse 100, TimerFires 1,
          TimerFires 2, Settles 0 (Rejected \<lparr>JsError.name = ''AbortError'', message = ''''\<rparr>),
          TimerFires 2 :: nat event]"]
  by (simp add: ctl_defs)

lemma silent_stopAll: "ctrl_inv c \<Longrightarrow> silent (stopAll c)"
  using live_stopAll[of c] clearTimer_eq[of c]
  by (simp add: silent_def) (simp add: stopAll_def abortInflight_def split: option.splits)

lemma silent_step:
  assumes "silent c" "quiet ev"
  shows "silent (step c ev) \<and> callbacks (step c ev) = callbacks c
         \<and> fetched (step c ev) = fetched c \<and> calls (step c ev) = calls c"
proof (cases ev)
  case (Settles t out)
  have "t \<in> aborted c" if "map_of (inflight c) t = Some q" for q
  proof -
    from that have "(t, q) \<in> set (inflight c)" by (rule map_of_SomeD)
    moreover have "\<forall>p \<in> set (inflight c). fst p \<in> aborted c"
      using assms(1) by (simp add: silent_def live_def filter_empty_conv)
    ultimately show ?thesis by fastforce
  qed
  then show ?thesis using assms(1) Settles
    by (auto simp: silent_def settle_def live_def Let_def filter_empty_conv
          split: option.splits outcome.splits)
next
  case StopAll
  then show ?thesis using assms(1)
    by (auto simp: silent_def stopAll_def abortInflight_def clearTimer_def clearTimeout_def live_def
          filter_empty_conv split: option.splits)
qed (use assms in \<open>auto simp: silent_def elapse_def timerFires_def live_def\<close>)

lemma silent_run:
  "silent c \<Longrightarrow> list_all quiet evs \<Longrightarrow>
   silent (run c evs) \<and> callbacks (run c evs) = callbacks c
   \<and> fetched (run c evs) = fetched c \<and> calls (run c evs) = calls c"
proof (induction evs arbitrary: c)
  case Nil
  then show ?case by (simp add: run_def)
next
  case (Cons ev evs)
  from Cons.prems have s: "silent (step c ev) \<and> callbacks (step c ev) = callbacks c
         \<and> fetched (step c ev) = fetched c \<and> calls (step c ev) = calls c"
    by (simp add: silent_step)
  from Cons.prems have "list_all quiet evs" by simp
  with s Cons.IH[of "step c ev"] show ?case by (simp add: run_def)
qed

lemma muted_abortInflight: "muted n0 k c \<Longrightarrow> muted n0 k (abortInflight c)"
  by (auto simp: muted_def abortInflight_def split: option.splits)

lemma muted_clearTimer: "muted n0 k c \<Longrightarrow> muted n0 k (clearTimer c)"
  by (auto simp: muted_def clearTimer_def clearTimeout_def split: option.splits)

lemma muted_execute: "muted n0 k c \<Longrightarrow> muted n0 k (execute q c)"
  by (auto simp: muted_def execute_def Let_def abortInflight_def split: option.splits)

lemma list_all_drop_single: "P x \<Longrightarrow> list_all P (drop n [x])"
  by (cases n) simp_all

lemma muted_settle: "muted n0 k c \<Longrightarrow> muted n0 k (settle t out c)"
proof -
  assume m: "muted n0 k c"
  show ?thesis
  proof (cases "map_of (inflight c) t")
    case None
    then show ?thesis using m by (simp add: settle_def)
  next
    case (Some q)
    then have mem: "(t, q) \<in> set (inflight c)" by (rule map_of_SomeD)
    have ab: "t < n0 \<Longrightarrow> t \<in> aborted c"
      using m mem by (fastforce simp: muted_def)
    have d: "muted n0 k (c\<lparr>inflight := filter (\<lambda>p. fst p \<noteq> t) (inflight c)\<rparr>)"
      using m by (auto simp: muted_def)
    show ?thesis
      using d ab Some
      by (cases "t < n0")
         (auto simp: settle_def Let_def muted_def list_all_drop_single split: outcome.splits)
  qed
qed

lemma muted_step: "muted n0 k c \<Longrightarrow> muted n0 k (step c ev)"
proof (cases ev)
  case (Request q)
  assume "muted n0 k c"
  then show ?thesis using Request
    by (auto simp: muted_def request_def Let_def clearTimer_def clearTimeout_def split: option.splits)
next
  case (ForceRequest q)
  assume "muted n0 k c"
  then show ?thesis using ForceRequest
    by (simp add: forceRequest_def muted_execute muted_clearTimer)
next
  case StopAll
  assume "muted n0 k c"
  then have "muted n0 k (abortInflight (clearTimer c))"
    by (simp add: muted_abortInflight muted_clearTimer)
  then show ?thesis using StopAll by (simp add: stopAll_def muted_def)
next
  case (Elapse ms)
  assume "muted n0 k c"
  then show ?thesis using Elapse by (simp add: elapse_def muted_def)
next
  case (TimerFires h)
  assume m: "muted n0 k c"
  have "muted n0 k (c\<lparr>timeouts := ts, timerId := None\<rparr>)" for ts
    using m by (simp add: muted_def)
  then show ?thesis using TimerFires m
    by (simp add: timerFires_def muted_execute split: option.splits)
next
  case (Settles t out)
  assume "muted n0 k c"
  then show ?thesis using Settles by (simp add: muted_settle)
qed

lemma muted_run: "muted n0 k c \<Longrightarrow> muted n0 k (run c evs)"
  unfolding run_def by (induction evs arbitrary: c) (simp_all add: muted_step)

lemma muted_stopAll: "ctrl_inv c \<Longrightarrow> muted (nextCtrl c) (length (callbacks c)) (stopAll c)"
proof -
  assume i: "ctrl_inv c"
  have l: "live (stopAll c) = []" using i by (rule live_stopAll)
  have "\<forall>p \<in> set (inflight (stopAll c)). fst p \<in> aborted (stopAll c)"
    using l by (simp add: live_def filter_empty_conv)
  moreover have "nextCtrl (stopAll c) = nextCtrl c" "callbacks (stopAll c) = callbacks c"
    by (simp_all add: stopAll_def abortInflight_def clearTimer_def clearTimeout_def split: option.splits)
  ultimately show ?thesis by (simp add: muted_def)
qed

lemma numbered_step: "numbered c \<Longrightarrow> numbered (step c ev)"
proof -
  assume n: "numbered c"
  have e: "numbered (execute q d)" if "numbered d" for q and d :: "'q Controller"
    using that
    by (auto simp: numbered_def execute_def Let_def abortInflight_def list_all_iff
          split: option.splits)
  have s: "numbered (settle t out c)" for t out
    using n by (auto simp: numbered_def settle_def Let_def split: option.splits outcome.splits)
  have c1: "numbered (clearTimer c)"
    using n by (auto simp: numbered_def clearTimer_def clearTimeout_def split: option.splits)
  have c2: "numbered (c\<lparr>timeouts := ts, timerId := None\<rparr>)" for ts
    using n by (simp add: numbered_def)
  show ?thesis
  proof (cases ev)
    case (Request q)
    then show ?thesis using n
      by (auto simp: numbered_def request_def Let_def clearTimer_def clearTimeout_def split: option.splits)
  next
    case (ForceRequest q)
    then show ?thesis using e[OF c1] by (simp add: forceRequest_def)
  next
    case StopAll
    then show ?thesis using n
      by (auto simp: numbered_def stopAll_def abortInflight_def clearTimer_def clearTimeout_def split: option.splits)
  next
    case (Elapse ms)
    then show ?thesis using n by (simp add: numbered_def elapse_def)
  next
    case (TimerFires h)
    then show ?thesis using n e[OF c2] by (simp add: timerFires_def split: option.splits)
  next
    case (Settles t out)
    then show ?thesis using s by simp
  qed
qed

lemma numbered_run: "numbered c \<Longrightarrow> numbered (run c evs)"
  unfolding run_def by (induction evs arbitrary: c) (simp_all add: numbered_step)

lemma numbered_reachable: "numbered (run (createLLMController ms) evs)"
  by (rule numbered_run) (simp add: numbered_def createLLMController_def)

lemma stopAll_mutes_earlier_calls:
  "list_all (\<lambda>p. fst p < nextCtrl (run (createLLMController ms) evs))
     (fetched (run (createLLMController ms) evs)) \<and>
   list_all (\<lambda>cb. nextCtrl (run (createLLMController ms) evs) \<le> invoked_by cb)
     (drop (length (callbacks (run (createLLMController ms) evs)))
        (callbacks (run (stopAll (run (createLLMController ms) evs)) anything)))"
proof -
  let ?c = "run (createLLMController ms) evs"
  have "muted (nextCtrl ?c) (length (callbacks ?c)) (run (stopAll ?c) anything)"
    by (rule muted_run) (rule muted_stopAll, rule inv_reachable)
  then show ?thesis
    using numbered_reachable[of ms evs] by (simp add: muted_def numbered_def)
qed

text \<open>
  Claim C2.  After \<open>stopAll\<close> no timeout is pending (\<open>timerId\<close> is null and the
  schedule of the runtime is empty), the in-flight call is cancelled and the status is
  \<open>idle\<close>.  Whatever happens afterwards short of a new request, be it time passing, the
  runtime trying to run a timeout callback, or a call issued earlier being fulfilled or
  rejected, no callback is invoked, no network call is issued, and the status stays
  \<open>idle\<close>.  When new requests do follow, in any order with anything else, every
  callback invoked after \<open>stopAll\<close> still comes from a call issued after it: the calls
  issued before have the numbers below \<open>nextCtrl\<close>, the callbacks the numbers from
  \<open>nextCtrl\<close> on.
\<close>

theorem stopAll_no_callbacks:
  assumes "list_all quiet later"
  shows "timerId (stopAll (run (createLLMController ms) evs)) = None \<and>
         timeouts (stopAll (run (createLLMController ms) evs)) = [] \<and>
         abortCtrl (stopAll (run (createLLMController ms) evs)) = None \<and>
         live (stopAll (run (createLLMController ms) evs)) = [] \<and>
         status (stopAll (run (createLLMController ms) evs)) = idle \<and>
         callbacks (run (stopAll (run (createLLMController ms) evs)) later)
           = callbacks (run (createLLMController ms) evs) \<and>
         status (run (stopAll (run (createLLMController ms) evs)) later) = idle \<and>
         fetched (run (stopAll (run (createLLMController ms) evs)) later)
           = fetched (run (createLLMController ms) evs) \<and>
         callCount (run (stopAll (run (createLLMController ms) evs)) later)
           = callCount (run (createLLMController ms) evs) \<and>
         list_all (\<lambda>p. fst p < nextCtrl (run (createLLMController ms) evs))
           (fetched (run (createLLMController ms) evs)) \<and>
         list_all (\<lambda>cb. nextCtrl (run (createLLMController ms) evs) \<le> invoked_by cb)
           (drop (length (callbacks (run (createLLMController ms) evs)))
              (callbacks (run (stopAll (run (createLLMController ms) evs)) anything)))"
proof -
  let ?c = "run (createLLMController ms) evs"
  have i: "ctrl_inv ?c" by (rule inv_reachable)
  have s: "silent (stopAll ?c)" using i by (rule silent_stopAll)
  have f: "callbacks (stopAll ?c) = callbacks ?c" "fetched (stopAll ?c) = fetched ?c"
    "calls (stopAll ?c) = calls ?c" "abortCtrl (stopAll ?c) = None"
    by (simp_all add: stopAll_def abortInflight_def clearTimer_def clearTimeout_def
          split: option.splits)
  from silent_run[OF s assms] s f stopAll_mutes_earlier_calls[of ms evs anything] show ?thesis
    by (simp add: silent_def status_def callCount_def)
qed

theorem stopAll_no_callbacks_witness:
  "list_all quiet
     [Settles 1 (Fulfilled \<lparr>residentMessage = None, staffMessage = None,
                             explanationText = js_string ''ok''\<rparr>),
      Settles 0 (Rejected \<lparr>JsError.name = ''TypeError'', message = ''Failed to fetch''\<rparr>),
      Elapse 1000, TimerFires 0 :: nat event] \<and>
   inflight (run (createLLMController 600) [ForceRequest (1::nat), ForceRequest 2, Request 3])
     = [(0, 1), (1, 2)] \<and>
   timeouts (run (createLLMController 600) [ForceRequest (1::nat), ForceRequest 2, Request 3])
     = [(0, 600, 3)] \<and>
   timerId (run (createLLMController 600) [ForceRequest (1::nat), ForceRequest 2, Request 3])
     = Some 0 \<and>
   callbacks (run (stopAll (run (createLLMController 600) [ForceRequest (1::nat), ForceRequest 2, Request 3]))
     [Settles 1 (Fulfilled \<lparr>residentMessage = None, staffMessage = None,
                             explanationText = js_string ''ok''\<rparr>),
      Settles 0 (Rejected \<lparr>JsError.name = ''TypeError'', message = ''Failed to fetch''\<rparr>),
      Elapse 1000, TimerFires 0]) = [] \<and>
   callbacks (run (stopAll (run (createLLMController 600) [ForceRequest (1::nat), ForceRequest 2, Request 3]))
     [ForceRequest 4,
      Settles 1 (Fulfilled \<lparr>residentMessage = None, staffMessage = None,
                             explanationText = js_string ''ok''\<rparr>),
      Settles 2 (Fulfilled \<lparr>residentMessage = None, staffMessage = None,
                             explanationText = js_string ''new''\<rparr>)])
     = [OnResult 2 4 \<lparr>residentMessage = None, staffMessage = None,
                       explanationText = js_string ''new''\<rparr>]"
  using stopAll_no_callbacks
    [of "[Settles 1 (Fulfilled \<lparr>residentMessage = None, staffMessage = None,
                                  explanationText = js_string ''ok''\<rparr>),
      Settles 0 (Rejected \<lparr>JsError.name = ''TypeError'', message = ''Failed to fetch''\<rparr>),
      Elapse 1000, TimerFires 0 :: nat event]"
     600 "[ForceRequest (1::nat), ForceRequest 2, Request 3]"
     "[ForceRequest 4,
      Settles 1 (Fulfilled \<lparr>residentMessage = None, staffMessage = None,
                             explanationText = js_string ''ok''\<rparr>),
      Settles 2 (Fulfilled \<lparr>residentMessage = None, staffMessage = None,
                             explanationText = js_string ''new''\<rparr>)]"]
  by (simp add: ctl_defs)

section \<open>Properties of the change-gate\<close>

lemma buildLLMContext_frame:
  "snd (buildLLMContext risks lvl names a)
     = a\<lparr>residentProfile := (residentProfile a)\<lparr>cognitiveConcernLevel := urgencyBand (cognitive risks)\<rparr>\<rparr>"
  by (simp add: buildLLMContext_def Let_def)

lemma maybeRequestLLM_skip:
  "simRunning a \<or> \<not> isLLMAvailable (llmConfig a) \<Longrightarrow> maybeRequestLLM iv risks ex a = a"
  by (auto simp: maybeRequestLLM_def)

lemma maybeRequestLLM_low:
  "\<not> simRunning a \<Longrightarrow> isLLMAvailable (llmConfig a) \<Longrightarrow> level_num (level iv) < 2 \<Longrightarrow>
   maybeRequestLLM iv risks ex a = a\<lparr>llm := stopAll (llm a), lastLLMMessages := None\<rparr>"
  by (simp add: maybeRequestLLM_def stopLLMWork_def)

lemma maybeRequestLLM_same:
  "\<not> simRunning a \<Longrightarrow> isLLMAvailable (llmConfig a) \<Longrightarrow> \<not> level_num (level iv) < 2 \<Longrightarrow>
   computeContextSignature iv risks ex (timelineEvents a) = prevSignature a \<Longrightarrow>
   maybeRequestLLM iv risks ex a = a"
  by (simp add: maybeRequestLLM_def)

lemma maybeRequestLLM_changed:
  "\<not> simRunning a \<Longrightarrow> isLLMAvailable (llmConfig a) \<Longrightarrow> \<not> level_num (level iv) < 2 \<Longrightarrow>
   computeContextSignature iv risks ex (timelineEvents a) \<noteq> prevSignature a \<Longrightarrow>
   maybeRequestLLM iv risks ex a
     = a\<lparr>prevSignature := computeContextSignature iv risks ex (timelineEvents a),
          residentProfile := (residentProfile a)\<lparr>cognitiveConcernLevel := urgencyBand (cognitive risks)\<rparr>,
          llm := request (fst (buildLLMContext risks (level iv) (map factor (topFactors ex)) a)) (llm a)\<rparr>"
  by (simp add: maybeRequestLLM_def Let_def buildLLMContext_def)

lemma stopAll_fields:
  "timerId (stopAll c) = None" "abortCtrl (stopAll c) = None" "fetched (stopAll c) = fetched c"
  "callbacks (stopAll c) = callbacks c" "calls (stopAll c) = calls c" "currentStatus (stopAll c) = idle"
  by (simp_all add: stopAll_def abortInflight_def clearTimer_def clearTimeout_def
        split: option.splits)

lemma stopAll_timeouts: "ctrl_inv c \<Longrightarrow> timeouts (stopAll c) = []"
  using silent_stopAll[of c] by (simp add: silent_def)

lemma find_rev_last:
  "find P (rev xs) = (case filter P xs of [] \<Rightarrow> None | es \<Rightarrow> Some (last es))"
  by (induction xs rule: rev_induct) (auto split: list.splits)

lemma signature_parts:
  "computeContextSignature iv risks ex events
     = level_string (level iv) @ ''|'' @ band_string (urgencyBand (overall risks)) @ ''|''
       @ join '','' (map factor (take 2 (topFactors ex))) @ ''|''
       @ (case filter (\<lambda>e. urgency e \<noteq> Low) events of
            [] \<Rightarrow> ''none''
          | es \<Rightarrow> label (last es) @ ''|'' @ band_string (urgency (last es)))"
  by (simp add: computeContextSignature_def Let_def find_rev_last split: list.splits)

lemma maybeRequestLLM_again:
  assumes "\<not> level_num (level iv) < 2"
  shows "maybeRequestLLM iv risks ex (maybeRequestLLM iv risks ex a) = maybeRequestLLM iv risks ex a"
proof (cases "simRunning a \<or> \<not> isLLMAvailable (llmConfig a)")
  case True
  then show ?thesis by (simp add: maybeRequestLLM_skip)
next
  case False
  then have g: "\<not> simRunning a" "isLLMAvailable (llmConfig a)" by simp_all
  show ?thesis
  proof (cases "computeContextSignature iv risks ex (timelineEvents a) = prevSignature a")
    case True
    then show ?thesis by (simp add: maybeRequestLLM_same[OF g assms True])
  next
    case ne: False
    let ?b = "a\<lparr>prevSignature := computeContextSignature iv risks ex (timelineEvents a),
          residentProfile := (residentProfile a)\<lparr>cognitiveConcernLevel := urgencyBand (cognitive risks)\<rparr>,
          llm := request (fst (buildLLMContext risks (level iv) (map factor (topFactors ex)) a)) (llm a)\<rparr>"
    have b: "maybeRequestLLM iv risks ex a = ?b"
      using g assms ne by (rule maybeRequestLLM_changed)
    have "maybeRequestLLM iv risks ex ?b = ?b"
      by (rule maybeRequestLLM_same) (use g assms in simp_all)
    then show ?thesis unfolding b .
  qed
qed

text \<open>
  Claim C6, as amended.  The signature is the level, the overall band, the names of the
  first two factors joined by a comma, and the label and urgency of the most recent
  event that is not Low (or \<open>none\<close>), separated by bars.

  While a simulation is running or enrichment is unavailable an evaluation changes
  nothing, whatever the level.  Otherwise: at a level below 2 the pending timeout and the
  in-flight call are cancelled and the cached enrichment is cleared, with no call issued;
  at a level of 2 or more an evaluation whose signature equals the stored one changes
  nothing, and one whose signature differs stores the new signature and makes exactly one
  controller request: the one timeout on the schedule is the new one, carrying the
  context of this evaluation (its risks, its level and the names of all its factors), and
  no network call is issued yet.  At a level of 2 or more, evaluating the same inputs a
  second time changes nothing.
\<close>

theorem maybeRequestLLM_gate:
  assumes "llm a = run (createLLMController ms) evs"
  shows
   "computeContextSignature iv risks ex (timelineEvents a)
      = level_string (level iv) @ ''|'' @ band_string (urgencyBand (overall risks)) @ ''|''
        @ join '','' (map factor (take 2 (topFactors ex))) @ ''|''
        @ (case filter (\<lambda>e. urgency e \<noteq> Low) (timelineEvents a) of
             [] \<Rightarrow> ''none''
           | es \<Rightarrow> label (last es) @ ''|'' @ band_string (urgency (last es))) \<and>
    (simRunning a \<or> \<not> isLLMAvailable (llmConfig a) \<longrightarrow> maybeRequestLLM iv risks ex a = a) \<and>
    (\<not> simRunning a \<and> isLLMAvailable (llmConfig a) \<longrightarrow>
      (if level_num (level iv) < 2
       then maybeRequestLLM iv risks ex a = a\<lparr>llm := stopAll (llm a), lastLLMMessages := None\<rparr> \<and>
            timerId (llm (maybeRequestLLM iv risks ex a)) = None \<and>
            timeouts (llm (maybeRequestLLM iv risks ex a)) = [] \<and>
            live (llm (maybeRequestLLM iv risks ex a)) = [] \<and>
            fetched (llm (maybeRequestLLM iv risks ex a)) = fetched (llm a) \<and>
            lastLLMMessages (maybeRequestLLM iv risks ex a) = None
       else if computeContextSignature iv risks ex (timelineEvents a) = prevSignature a
       then maybeRequestLLM iv risks ex a = a
       else prevSignature (maybeRequestLLM iv risks ex a)
              = computeContextSignature iv risks ex (timelineEvents a) \<and>
            llm (maybeRequestLLM iv risks ex a)
              = request (fst (buildLLMContext risks (level iv) (map factor (topFactors ex)) a)) (llm a) \<and>
            timerId (llm (maybeRequestLLM iv risks ex a)) = Some (nextTimer (llm a)) \<and>
            timeouts (llm (maybeRequestLLM iv risks ex a))
              = [(nextTimer (llm a), now (llm a) + ms,
                  fst (buildLLMContext risks (level iv) (map factor (topFactors ex)) a))] \<and>
            riskScores (fst (buildLLMContext risks (level iv) (map factor (topFactors ex)) a))
              = risks \<and>
            interventionLevel (fst (buildLLMContext risks (level iv) (map factor (topFactors ex)) a))
              = level iv \<and>
            topContributingFactors
                (fst (buildLLMContext risks (level iv) (map factor (topFactors ex)) a))
              = map factor (topFactors ex) \<and>
            fetched (llm (maybeRequestLLM iv risks ex a)) = fetched (llm a) \<and>
            lastLLMMessages (maybeRequestLLM iv risks ex a) = lastLLMMessages a)) \<and>
    (\<not> level_num (level iv) < 2 \<longrightarrow>
       maybeRequestLLM iv risks ex (maybeRequestLLM iv risks ex a) = maybeRequestLLM iv risks ex a)"
proof -
  have inv: "ctrl_inv (llm a)" unfolding assms by (rule inv_reachable)
  have deb: "debounceMs (llm a) = ms" unfolding assms by (rule debounce_reachable)
  have sg: "computeContextSignature iv risks ex (timelineEvents a)
      = level_string (level iv) @ ''|'' @ band_string (urgencyBand (overall risks)) @ ''|''
        @ join '','' (map factor (take 2 (topFactors ex))) @ ''|''
        @ (case filter (\<lambda>e. urgency e \<noteq> Low) (timelineEvents a) of
             [] \<Rightarrow> ''none''
           | es \<Rightarrow> label (last es) @ ''|'' @ band_string (urgency (last es)))"
    by (rule signature_parts)
  have skip: "simRunning a \<or> \<not> isLLMAvailable (llmConfig a) \<longrightarrow> maybeRequestLLM iv risks ex a = a"
    using maybeRequestLLM_skip by blast
  have again: "\<not> level_num (level iv) < 2 \<longrightarrow>
       maybeRequestLLM iv risks ex (maybeRequestLLM iv risks ex a) = maybeRequestLLM iv risks ex a"
    using maybeRequestLLM_again by blast
  have main: "(if level_num (level iv) < 2
       then maybeRequestLLM iv risks ex a = a\<lparr>llm := stopAll (llm a), lastLLMMessages := None\<rparr> \<and>
            timerId (llm (maybeRequestLLM iv risks ex a)) = None \<and>
            timeouts (llm (maybeRequestLLM iv risks ex a)) = [] \<and>
            live (llm (maybeRequestLLM iv risks ex a)) = [] \<and>
            fetched (llm (maybeRequestLLM iv risks ex a)) = fetched (llm a) \<and>
            lastLLMMessages (maybeRequestLLM iv risks ex a) = None
       else if computeContextSignature iv risks ex (timelineEvents a) = prevSignature a
       then maybeRequestLLM iv risks ex a = a
       else prevSignature (maybeRequestLLM iv risks ex a)
              = computeContextSignature iv risks ex (timelineEvents a) \<and>
            llm (maybeRequestLLM iv risks ex a)
              = request (fst (buildLLMContext risks (level iv) (map factor (topFactors ex)) a)) (llm a) \<and>
            timerId (llm (maybeRequestLLM iv risks ex a)) = Some (nextTimer (llm a)) \<and>
            timeouts (llm (maybeRequestLLM iv risks ex a))
              = [(nextTimer (llm a), now (llm a) + ms,
                  fst (buildLLMContext risks (level iv) (map factor (topFactors ex)) a))] \<and>
            riskScores (fst (buildLLMContext risks (level iv) (map factor (topFactors ex)) a))
              = risks \<and>
            interventionLevel (fst (buildLLMContext risks (level iv) (map factor (topFactors ex)) a))
              = level iv \<and>
            topContributingFactors
                (fst (buildLLMContext risks (level iv) (map factor (topFactors ex)) a))
              = map factor (topFactors ex) \<and>
            fetched (llm (maybeRequestLLM iv risks ex a)) = fetched (llm a) \<and>
            lastLLMMessages (maybeRequestLLM iv risks ex a) = lastLLMMessages a)"
    if g: "\<not> simRunning a" "isLLMAvailable (llmConfig a)"
  proof (cases "level_num (level iv) < 2")
    case True
    show ?thesis
      using True
      by (simp add: maybeRequestLLM_low[OF g True] stopAll_fields stopAll_timeouts[OF inv]
            live_stopAll[OF inv])
  next
    case False
    show ?thesis
    proof (cases "computeContextSignature iv risks ex (timelineEvents a) = prevSignature a")
      case True
      then show ?thesis using False by (simp add: maybeRequestLLM_same[OF g False True])
    next
      case ne: False
      have c: "riskScores (fst (buildLLMContext risks (level iv) (map factor (topFactors ex)) a))
                 = risks"
          "interventionLevel (fst (buildLLMContext risks (level iv) (map factor (topFactors ex)) a))
                 = level iv"
          "topContributingFactors
                (fst (buildLLMContext risks (level iv) (map factor (topFactors ex)) a))
                 = map factor (topFactors ex)"
        by (simp_all add: buildLLMContext_def Let_def)
      show ?thesis
        using False ne
        by (simp add: maybeRequestLLM_changed[OF g False ne] c)
           (simp add: request_eq[OF inv] deb)
    qed
  qed
  show ?thesis using sg skip main again by blast
qed

lemmas app_defs = maybeRequestLLM_def stopLLMWork_def buildLLMContext_def computeContextSignature_def
  isLLMAvailable_def initialApp_def defaultLLMConfig_def defaultState_def urgencyBand_def
  runtime_events_def runtime_event_def

theorem maybeRequestLLM_gate_witness:
  "llm (initialApp\<lparr>
          timelineEvents :=
            [\<lparr>time = 10, label = ''Fall risk elevated'', urgency = High, detail = ''''\<rparr>,
             \<lparr>time = 12, label = ''Comfortable period'', urgency = Low, detail = ''''\<rparr>],
          llmConfig := defaultLLMConfig\<lparr>apiKey := ''k'', enabled := True\<rparr>,
          llm := run (createLLMController 600)
                   [ForceRequest (fst (buildLLMContext \<lparr>fall = 50, cognitive = 0, loneliness = 0, overall = 20\<rparr> L2 [] initialApp)),
                    Request (fst (buildLLMContext \<lparr>fall = 50, cognitive = 0, loneliness = 0, overall = 20\<rparr> L2 [] initialApp))],
          prevSignature := ''3|High|Reduced mobility stability,Nighttime hours|Fall risk elevated|High''\<rparr>)
     = run (createLLMController 600)
         [ForceRequest (fst (buildLLMContext \<lparr>fall = 50, cognitive = 0, loneliness = 0, overall = 20\<rparr> L2 [] initialApp)),
          Request (fst (buildLLMContext \<lparr>fall = 50, cognitive = 0, loneliness = 0, overall = 20\<rparr> L2 [] initialApp))] \<and>
   \<not> simRunning
       (initialApp\<lparr>
          timelineEvents :=
            [\<lparr>time = 10, label = ''Fall risk elevated'', urgency = High, detail = ''''\<rparr>,
             \<lparr>time = 12, label = ''Comfortable period'', urgency = Low, detail = ''''\<rparr>],
          llmConfig := defaultLLMConfig\<lparr>apiKey := ''k'', enabled := True\<rparr>,
          llm := run (createLLMController 600)
                   [ForceRequest (fst (buildLLMContext \<lparr>fall = 50, cognitive = 0, loneliness = 0, overall = 20\<rparr> L2 [] initialApp)),
                    Request (fst (buildLLMContext \<lparr>fall = 50, cognitive = 0, loneliness = 0, overall = 20\<rparr> L2 [] initialApp))],
          prevSignature := ''3|High|Reduced mobility stability,Nighttime hours|Fall risk elevated|High''\<rparr>) \<and>
   isLLMAvailable (llmConfig
       (initialApp\<lparr>
          timelineEvents :=
            [\<lparr>time = 10, label = ''Fall risk elevated'', urgency = High, detail = ''''\<rparr>,
             \<lparr>time = 12, label = ''Comfortable period'', urgency = Low, detail = ''''\<rparr>],
          llmConfig := defaultLLMConfig\<lparr>apiKey := ''k'', enabled := True\<rparr>,
          llm := run (createLLMController 600)
                   [ForceRequest (fst (buildLLMContext \<lparr>fall = 50, cognitive = 0, loneliness = 0, overall = 20\<rparr> L2 [] initialApp)),
                    Request (fst (buildLLMContext \<lparr>fall = 50, cognitive = 0, loneliness = 0, overall = 20\<rparr> L2 [] initialApp))],
          prevSignature := ''3|High|Reduced mobility stability,Nighttime hours|Fall risk elevated|High''\<rparr>)) \<and>
   computeContextSignature \<lparr>level = L3, levelLabel = ''Staff Soft Alert''\<rparr>
       \<lparr>fall = 80, cognitive = 30, loneliness = 20, overall = 75\<rparr>
       \<lparr>topFactors = [\<lparr>factor = ''Reduced mobility stability'', weight = 0.9\<rparr>,
                      \<lparr>factor = ''Nighttime hours'', weight = 0.6\<rparr>,
                      \<lparr>factor = ''Elevated restlessness'', weight = 0.5\<rparr>], narrative = ''''\<rparr>
       [\<lparr>time = 10, label = ''Fall risk elevated'', urgency = High, detail = ''''\<rparr>,
        \<lparr>time = 12, label = ''Comfortable period'', urgency = Low, detail = ''''\<rparr>]
     = ''3|High|Reduced mobility stability,Nighttime hours|Fall risk elevated|High'' \<and>
   maybeRequestLLM \<lparr>level = L3, levelLabel = ''Staff Soft Alert''\<rparr>
       \<lparr>fall = 80, cognitive = 30, loneliness = 20, overall = 75\<rparr>
       \<lparr>topFactors = [\<lparr>factor = ''Reduced mobility stability'', weight = 0.9\<rparr>,
                      \<lparr>factor = ''Nighttime hours'', weight = 0.6\<rparr>,
                      \<lparr>factor = ''Elevated restlessness'', weight = 0.5\<rparr>], narrative = ''''\<rparr>
       (initialApp\<lparr>
          timelineEvents :=
            [\<lparr>time = 10, label = ''Fall risk elevated'', urgency = High, detail = ''''\<rparr>,
             \<lparr>time = 12, label = ''Comfortable period'', urgency = Low, detail = ''''\<rparr>],
          llmConfig := defaultLLMConfig\<lparr>apiKey := ''k'', enabled := True\<rparr>,
          llm := run (createLLMController 600)
                   [ForceRequest (fst (buildLLMContext \<lparr>fall = 50, cognitive = 0, loneliness = 0, overall = 20\<rparr> L2 [] initialApp)),
                    Request (fst (buildLLMContext \<lparr>fall = 50, cognitive = 0, loneliness = 0, overall = 20\<rparr> L2 [] initialApp))],
          prevSignature := ''3|High|Reduced mobility stability,Nighttime hours|Fall risk elevated|High''\<rparr>)
     = initialApp\<lparr>
          timelineEvents :=
            [\<lparr>time = 10, label = ''Fall risk elevated'', urgency = High, detail = ''''\<rparr>,
             \<lparr>time = 12, label = ''Comfortable period'', urgency = Low, detail = ''''\<rparr>],
          llmConfig := defaultLLMConfig\<lparr>apiKey := ''k'', enabled := True\<rparr>,
          llm := run (createLLMController 600)
                   [ForceRequest (fst (buildLLMContext \<lparr>fall = 50, cognitive = 0, loneliness = 0, overall = 20\<rparr> L2 [] initialApp)),
                    Request (fst (buildLLMContext \<lparr>fall = 50, cognitive = 0, loneliness = 0, overall = 20\<rparr> L2 [] initialApp))],
          prevSignature := ''3|High|Reduced mobility stability,Nighttime hours|Fall risk elevated|High''\<rparr> \<and>
   prevSignature (maybeRequestLLM \<lparr>level = L3, levelLabel = ''Staff Soft Alert''\<rparr>
       \<lparr>fall = 80, cognitive = 30, loneliness = 20, overall = 75\<rparr>
       \<lparr>topFactors = [\<lparr>factor = ''Nighttime hours'', weight = 0.6\<rparr>,
                      \<lparr>factor = ''Reduced mobility stability'', weight = 0.55\<rparr>,
                      \<lparr>factor = ''Elevated restlessness'', weight = 0.5\<rparr>], narrative = ''''\<rparr>
       (initialApp\<lparr>
          timelineEvents :=
            [\<lparr>time = 10, label = ''Fall risk elevated'', urgency = High, detail = ''''\<rparr>,
             \<lparr>time = 12, label = ''Comfortable period'', urgency = Low, detail = ''''\<rparr>],
          llmConfig := defaultLLMConfig\<lparr>apiKey := ''k'', enabled := True\<rparr>,
          llm := run (createLLMController 600)
                   [ForceRequest (fst (buildLLMContext \<lparr>fall = 50, cognitive = 0, loneliness = 0, overall = 20\<rparr> L2 [] initialApp)),
                    Request (fst (buildLLMContext \<lparr>fall = 50, cognitive = 0, loneliness = 0, overall = 20\<rparr> L2 [] initialApp))],
          prevSignature := ''3|High|Reduced mobility stability,Nighttime hours|Fall risk elevated|High''\<rparr>))
     = ''3|High|Nighttime hours,Reduced mobility stability|Fall risk elevated|High'' \<and>
   map (\<lambda>t. (fst t, fst (snd t), topContributingFactors (snd (snd t))))
     (timeouts (llm (maybeRequestLLM \<lparr>level = L3, levelLabel = ''Staff Soft Alert''\<rparr>
       \<lparr>fall = 80, cognitive = 30, loneliness = 20, overall = 75\<rparr>
       \<lparr>topFactors = [\<lparr>factor = ''Nighttime hours'', weight = 0.6\<rparr>,
                      \<lparr>factor = ''Reduced mobility stability'', weight = 0.55\<rparr>,
                      \<lparr>factor = ''Elevated restlessness'', weight = 0.5\<rparr>], narrative = ''''\<rparr>
       (initialApp\<lparr>
          timelineEvents :=
            [\<lparr>time = 10, label = ''Fall risk elevated'', urgency = High, detail = ''''\<rparr>,
             \<lparr>time = 12, label = ''Comfortable period'', urgency = Low, detail = ''''\<rparr>],
          llmConfig := defaultLLMConfig\<lparr>apiKey := ''k'', enabled := True\<rparr>,
          llm := run (createLLMController 600)
                   [ForceRequest (fst (buildLLMContext \<lparr>fall = 50, cognitive = 0, loneliness = 0, overall = 20\<rparr> L2 [] initialApp)),
                    Request (fst (buildLLMContext \<lparr>fall = 50, cognitive = 0, loneliness = 0, overall = 20\<rparr> L2 [] initialApp))],
          prevSignature := ''3|High|Reduced mobility stability,Nighttime hours|Fall risk elevated|High''\<rparr>))))
     = [(1, 600, [''Nighttime hours'', ''Reduced mobility stability'', ''Elevated restlessness''])] \<and>
   map fst (fetched (llm (maybeRequestLLM \<lparr>level = L3, levelLabel = ''Staff Soft Alert''\<rparr>
       \<lparr>fall = 80, cognitive = 30, loneliness = 20, overall = 75\<rparr>
       \<lparr>topFactors = [\<lparr>factor = ''Nighttime hours'', weight = 0.6\<rparr>,
                      \<lparr>factor = ''Reduced mobility stability'', weight = 0.55\<rparr>,
                      \<lparr>factor = ''Elevated restlessness'', weight = 0.5\<rparr>], narrative = ''''\<rparr>
       (initialApp\<lparr>
          timelineEvents :=
            [\<lparr>time = 10, label = ''Fall risk elevated'', urgency = High, detail = ''''\<rparr>,
             \<lparr>time = 12, label = ''Comfortable period'', urgency = Low, detail = ''''\<rparr>],
          llmConfig := defaultLLMConfig\<lparr>apiKey := ''k'', enabled := True\<rparr>,
          llm := run (createLLMController 600)
                   [ForceRequest (fst (buildLLMContext \<lparr>fall = 50, cognitive = 0, loneliness = 0, overall = 20\<rparr> L2 [] initialApp)),
                    Request (fst (buildLLMContext \<lparr>fall = 50, cognitive = 0, loneliness = 0, overall = 20\<rparr> L2 [] initialApp))],
          prevSignature := ''3|High|Reduced mobility stability,Nighttime hours|Fall risk elevated|High''\<rparr>)))) = [0]"
  using maybeRequestLLM_gate
    [of "initialApp\<lparr>
          timelineEvents :=
            [\<lparr>time = 10, label = ''Fall risk elevated'', urgency = High, detail = ''''\<rparr>,
             \<lparr>time = 12, label = ''Comfortable period'', urgency = Low, detail = ''''\<rparr>],
          llmConfig := defaultLLMConfig\<lparr>apiKey := ''k'', enabled := True\<rparr>,
          llm := run (createLLMController 600)
                   [ForceRequest (fst (buildLLMContext \<lparr>fall = 50, cognitive = 0, loneliness = 0, overall = 20\<rparr> L2 [] initialApp)),
                    Request (fst (buildLLMContext \<lparr>fall = 50, cognitive = 0, loneliness = 0, overall = 20\<rparr> L2 [] initialApp))],
          prevSignature := ''3|High|Reduced mobility stability,Nighttime hours|Fall risk elevated|High''\<rparr>"
        600
        "[ForceRequest (fst (buildLLMContext \<lparr>fall = 50, cognitive = 0, loneliness = 0, overall = 20\<rparr> L2 [] initialApp)),
          Request (fst (buildLLMContext \<lparr>fall = 50, cognitive = 0, loneliness = 0, overall = 20\<rparr> L2 [] initialApp))]"
        "\<lparr>level = L3, levelLabel = ''Staff Soft Alert''\<rparr>"
        "\<lparr>fall = 80, cognitive = 30, loneliness = 20, overall = 75\<rparr>"
        "\<lparr>topFactors = [\<lparr>factor = ''Reduced mobility stability'', weight = 0.9\<rparr>,
                      \<lparr>factor = ''Nighttime hours'', weight = 0.6\<rparr>,
                      \<lparr>factor = ''Elevated restlessness'', weight = 0.5\<rparr>], narrative = ''''\<rparr>"]
    maybeRequestLLM_gate
    [of "initialApp\<lparr>
          timelineEvents :=
            [\<lparr>time = 10, label = ''Fall risk elevated'', urgency = High, detail = ''''\<rparr>,
             \<lparr>time = 12, label = ''Comfortable period'', urgency = Low, detail = ''''\<rparr>],
          llmConfig := defaultLLMConfig\<lparr>apiKey := ''k'', enabled := True\<rparr>,
          llm := run (createLLMController 600)
                   [ForceRequest (fst (buildLLMContext \<lparr>fall = 50, cognitive = 0, loneliness = 0, overall = 20\<rparr> L2 [] initialApp)),
                    Request (fst (buildLLMContext \<lparr>fall = 50, cognitive = 0, loneliness = 0, overall = 20\<rparr> L2 [] initialApp))],
          prevSignature := ''3|High|Reduced mobility stability,Nighttime hours|Fall risk elevated|High''\<rparr>"
        600
        "[ForceRequest (fst (buildLLMContext \<lparr>fall = 50, cognitive = 0, loneliness = 0, overall = 20\<rparr> L2 [] initialApp)),
          Request (fst (buildLLMContext \<lparr>fall = 50, cognitive = 0, loneliness = 0, overall = 20\<rparr> L2 [] initialApp))]"
        "\<lparr>level = L3, levelLabel = ''Staff Soft Alert''\<rparr>"
        "\<lparr>fall = 80, cognitive = 30, loneliness = 20, overall = 75\<rparr>"
        "\<lparr>topFactors = [\<lparr>factor = ''Nighttime hours'', weight = 0.6\<rparr>,
                      \<lparr>factor = ''Reduced mobility stability'', weight = 0.55\<rparr>,
                      \<lparr>factor = ''Elevated restlessness'', weight = 0.5\<rparr>], narrative = ''''\<rparr>"]
  by (simp add: app_defs ctl_defs)

text \<open>
  The claim as stated, for every evaluation at a level below 2, fails when enrichment is
  unavailable: with the toggle on and the API key emptied, an evaluation at level 1
  leaves the pending timeout and the cached enrichment as they were.
\<close>

theorem maybeRequestLLM_unconditional_counterexample:
  "level_num (level \<lparr>level = L1, levelLabel = ''Ambient Cue''\<rparr>) < 2 \<and>
   timeouts (llm (initialApp\<lparr>
       llmConfig := defaultLLMConfig\<lparr>enabled := True\<rparr>,
       lastLLMMessages := Some \<lparr>residentMessage = None, staffMessage = None,
                                 explanationText = js_string ''ok''\<rparr>,
       llm := run (createLLMController 600)
                [Request (fst (buildLLMContext \<lparr>fall = 50, cognitive = 0, loneliness = 0, overall = 20\<rparr> L2 [] initialApp))]\<rparr>))
     = [(0, 600, fst (buildLLMContext \<lparr>fall = 50, cognitive = 0, loneliness = 0, overall = 20\<rparr> L2 [] initialApp))] \<and>
   timeouts (llm (maybeRequestLLM \<lparr>level = L1, levelLabel = ''Ambient Cue''\<rparr>
     \<lparr>fall = 0, cognitive = 0, loneliness = 0, overall = 0\<rparr>
     \<lparr>topFactors = [], narrative = ''''\<rparr>
     (initialApp\<lparr>
       llmConfig := defaultLLMConfig\<lparr>enabled := True\<rparr>,
       lastLLMMessages := Some \<lparr>residentMessage = None, staffMessage = None,
                                 explanationText = js_string ''ok''\<rparr>,
       llm := run (createLLMController 600)
                [Request (fst (buildLLMContext \<lparr>fall = 50, cognitive = 0, loneliness = 0, overall = 20\<rparr> L2 [] initialApp))]\<rparr>)))
     = [(0, 600, fst (buildLLMContext \<lparr>fall = 50, cognitive = 0, loneliness = 0, overall = 20\<rparr> L2 [] initialApp))] \<and>
   timerId (llm (maybeRequestLLM \<lparr>level = L1, levelLabel = ''Ambient Cue''\<rparr>
     \<lparr>fall = 0, cognitive = 0, loneliness = 0, overall = 0\<rparr>
     \<lparr>topFactors = [], narrative = ''''\<rparr>
     (initialApp\<lparr>
       llmConfig := defaultLLMConfig\<lparr>enabled := True\<rparr>,
       lastLLMMessages := Some \<lparr>residentMessage = None, staffMessage = None,
                                 explanationText = js_string ''ok''\<rparr>,
       llm := run (createLLMController 600)
                [Request (fst (buildLLMContext \<lparr>fall = 50, cognitive = 0, loneliness = 0, overall = 20\<rparr> L2 [] initialApp))]\<rparr>)))
     = Some 0 \<and>
   lastLLMMessages (maybeRequestLLM \<lparr>level = L1, levelLabel = ''Ambient Cue''\<rparr>
     \<lparr>fall = 0, cognitive = 0, loneliness = 0, overall = 0\<rparr>
     \<lparr>topFactors = [], narrative = ''''\<rparr>
     (initialApp\<lparr>
       llmConfig := defaultLLMConfig\<lparr>enabled := True\<rparr>,
       lastLLMMessages := Some \<lparr>residentMessage = None, staffMessage = None,
                                 explanationText = js_string ''ok''\<rparr>,
       llm := run (createLLMController 600)
                [Request (fst (buildLLMContext \<lparr>fall = 50, cognitive = 0, loneliness = 0, overall = 20\<rparr> L2 [] initialApp))]\<rparr>))
     = Some \<lparr>residentMessage = None, staffMessage = None, explanationText = js_string ''ok''\<rparr>"
  by (simp add: app_defs ctl_defs)

lemma runtime_event_silent:
  assumes "silent (llm a)" "quiet ev"
  shows "runtime_event a ev = a\<lparr>llm := step (llm a) ev\<rparr>"
proof -
  have "callbacks (step (llm a) ev) = callbacks (llm a)"
    using silent_step[OF assms] by simp
  then show ?thesis by (simp add: runtime_event_def Let_def)
qed

lemma runtime_events_silent:
  "silent (llm a) \<Longrightarrow> list_all quiet evs \<Longrightarrow>
   runtime_events a evs = a\<lparr>llm := run (llm a) evs\<rparr>"
proof (induction evs arbitrary: a)
  case Nil
  then show ?case by (simp add: runtime_events_def run_def)
next
  case (Cons ev evs)
  have q: "quiet ev" "list_all quiet evs" using Cons.prems by simp_all
  have e: "runtime_event a ev = a\<lparr>llm := step (llm a) ev\<rparr>"
    using Cons.prems(1) q(1) by (rule runtime_event_silent)
  have s: "silent (llm (a\<lparr>llm := step (llm a) ev\<rparr>))"
    using silent_step[OF Cons.prems(1) q(1)] by simp
  have "runtime_events (a\<lparr>llm := step (llm a) ev\<rparr>) evs
          = (a\<lparr>llm := step (llm a) ev\<rparr>)\<lparr>llm := run (llm (a\<lparr>llm := step (llm a) ev\<rparr>)) evs\<rparr>"
    using s q(2) by (rule Cons.IH)
  then show ?case
    by (simp add: runtime_events_def run_def e)
qed

lemma signature_not_empty: "computeContextSignature iv risks ex events \<noteq> ''''"
  by (cases "level iv") (simp_all add: computeContextSignature_def Let_def)

lemma dip_then_return:
  assumes gate: "\<not> simRunning a" "isLLMAvailable (llmConfig a)"
    and reach: "llm a = run (createLLMController ms) evs"
    and dip: "level_num (level iv1) < 2"
    and later: "list_all quiet later"
    and ret: "level_num (level iv2) \<ge> 2"
    and same: "computeContextSignature iv2 risks2 ex2 (timelineEvents a) = prevSignature a"
  shows
    "maybeRequestLLM iv1 risks1 ex1 a = a\<lparr>llm := stopAll (llm a), lastLLMMessages := None\<rparr> \<and>
     prevSignature (maybeRequestLLM iv1 risks1 ex1 a) = prevSignature a \<and>
     lastLLMMessages (maybeRequestLLM iv1 risks1 ex1 a) = None \<and>
     lastLLMMessages (runtime_events (maybeRequestLLM iv1 risks1 ex1 a) later) = None \<and>
     maybeRequestLLM iv2 risks2 ex2 (runtime_events (maybeRequestLLM iv1 risks1 ex1 a) later)
       = runtime_events (maybeRequestLLM iv1 risks1 ex1 a) later \<and>
     lastLLMMessages
       (maybeRequestLLM iv2 risks2 ex2 (runtime_events (maybeRequestLLM iv1 risks1 ex1 a) later))
       = None \<and>
     fetched (llm
       (maybeRequestLLM iv2 risks2 ex2 (runtime_events (maybeRequestLLM iv1 risks1 ex1 a) later)))
       = fetched (llm a) \<and>
     timerId (llm
       (maybeRequestLLM iv2 risks2 ex2 (runtime_events (maybeRequestLLM iv1 risks1 ex1 a) later)))
       = None \<and>
     timeouts (llm
       (maybeRequestLLM iv2 risks2 ex2 (runtime_events (maybeRequestLLM iv1 risks1 ex1 a) later)))
       = []"
proof -
  let ?a1 = "maybeRequestLLM iv1 risks1 ex1 a"
  let ?a2 = "runtime_events ?a1 later"
  have inv: "ctrl_inv (llm a)" unfolding reach by (rule inv_reachable)
  have a1: "?a1 = a\<lparr>llm := stopAll (llm a), lastLLMMessages := None\<rparr>"
    using gate dip by (rule maybeRequestLLM_low)
  have sil: "silent (llm ?a1)"
    using silent_stopAll[OF inv] by (simp add: a1)
  have a2: "?a2 = ?a1\<lparr>llm := run (llm ?a1) later\<rparr>"
    using sil later by (rule runtime_events_silent)
  have a2': "?a2 = a\<lparr>llm := run (stopAll (llm a)) later, lastLLMMessages := None\<rparr>"
    by (simp add: a2) (simp add: a1)
  have quietrun: "silent (run (stopAll (llm a)) later)"
    "fetched (run (stopAll (llm a)) later) = fetched (stopAll (llm a))"
    using silent_run[OF silent_stopAll[OF inv] later] by simp_all
  have g2: "\<not> simRunning ?a2" "isLLMAvailable (llmConfig ?a2)"
    using gate by (simp_all add: a2')
  have l2: "\<not> level_num (level iv2) < 2" using ret by simp
  have s2: "computeContextSignature iv2 risks2 ex2 (timelineEvents ?a2) = prevSignature ?a2"
    using same by (simp add: a2')
  have a3: "maybeRequestLLM iv2 risks2 ex2 ?a2 = ?a2"
    using g2 l2 s2 by (rule maybeRequestLLM_same)
  show ?thesis
    unfolding a3
    using quietrun by (simp add: a2' silent_def stopAll_fields) (simp add: a1)
qed

lemma forceRefreshLLM_resets:
  assumes "isLLMAvailable (llmConfig a)" "lastIntervention a = Some li" "lastRisks a = Some lr"
    "lastExplanation a = Some le" "level_num (level li) \<ge> 2"
  shows "prevSignature (forceRefreshLLM a) = '''' \<and>
         fetched (llm (forceRefreshLLM a))
           = fetched (llm a) @ [(nextCtrl (llm a), fst (buildLLMContext lr (level li) (map factor (topFactors le)) a))]"
  using assms
  by (simp add: forceRefreshLLM_def Let_def buildLLMContext_def forceRequest_def execute_def
       abortInflight_def clearTimer_def clearTimeout_def split: option.splits)

text \<open>
  Claim C10.  In the branch for a level below 2, \<open>maybeRequestLLM\<close> clears
  \<open>lastLLMMessages\<close> and stops the controller, and changes nothing else: the stored
  signature \<open>prevSignature\<close> stays.  Whatever the runtime does afterwards, no enrichment
  arrives.  If a later evaluation has a level of 2 or more and the signature that was
  stored before the dip, it changes nothing: no request is made, no network call is
  issued, nothing is scheduled and the enrichment stays cleared.  A signature is never the empty string, and
  \<open>forceRefreshLLM\<close> resets the stored signature to the empty string while issuing a
  call at once.
\<close>

theorem level_dip_keeps_signature:
  assumes gate: "\<not> simRunning a" "isLLMAvailable (llmConfig a)"
    and reach: "llm a = run (createLLMController ms) evs"
    and dip: "level_num (level iv1) < 2"
    and later: "list_all quiet later"
    and ret: "level_num (level iv2) \<ge> 2"
    and same: "computeContextSignature iv2 risks2 ex2 (timelineEvents a) = prevSignature a"
  shows
    "maybeRequestLLM iv1 risks1 ex1 a = a\<lparr>llm := stopAll (llm a), lastLLMMessages := None\<rparr> \<and>
     prevSignature (maybeRequestLLM iv1 risks1 ex1 a) = prevSignature a \<and>
     lastLLMMessages (maybeRequestLLM iv1 risks1 ex1 a) = None \<and>
     lastLLMMessages (runtime_events (maybeRequestLLM iv1 risks1 ex1 a) later) = None \<and>
     maybeRequestLLM iv2 risks2 ex2 (runtime_events (maybeRequestLLM iv1 risks1 ex1 a) later)
       = runtime_events (maybeRequestLLM iv1 risks1 ex1 a) later \<and>
     lastLLMMessages
       (maybeRequestLLM iv2 risks2 ex2 (runtime_events (maybeRequestLLM iv1 risks1 ex1 a) later))
       = None \<and>
     fetched (llm
       (maybeRequestLLM iv2 risks2 ex2 (runtime_events (maybeRequestLLM iv1 risks1 ex1 a) later)))
       = fetched (llm a) \<and>
     timerId (llm
       (maybeRequestLLM iv2 risks2 ex2 (runtime_events (maybeRequestLLM iv1 risks1 ex1 a) later)))
       = None \<and>
     timeouts (llm
       (maybeRequestLLM iv2 risks2 ex2 (runtime_events (maybeRequestLLM iv1 risks1 ex1 a) later)))
       = [] \<and>
     computeContextSignature iv risks ex events \<noteq> '''' \<and>
     (isLLMAvailable (llmConfig b) \<and> lastIntervention b = Some li \<and> lastRisks b = Some lr \<and>
      lastExplanation b = Some le \<and> level_num (level li) \<ge> 2 \<longrightarrow>
        prevSignature (forceRefreshLLM b) = '''' \<and>
        fetched (llm (forceRefreshLLM b))
          = fetched (llm b)
              @ [(nextCtrl (llm b), fst (buildLLMContext lr (level li) (map factor (topFactors le)) b))])"
proof -
  note d = dip_then_return[OF gate reach dip later ret same, of risks1 ex1]
  have f: "isLLMAvailable (llmConfig b) \<and> lastIntervention b = Some li \<and> lastRisks b = Some lr \<and>
      lastExplanation b = Some le \<and> level_num (level li) \<ge> 2 \<longrightarrow>
        prevSignature (forceRefreshLLM b) = '''' \<and>
        fetched (llm (forceRefreshLLM b))
          = fetched (llm b)
              @ [(nextCtrl (llm b), fst (buildLLMContext lr (level li) (map factor (topFactors le)) b))]"
    using forceRefreshLLM_resets[of b li lr le] by blast
  have n: "computeContextSignature iv risks ex events \<noteq> ''''"
    by (rule signature_not_empty)
  from d n f show ?thesis by (intro conjI) (elim conjE, assumption)+
qed

theorem level_dip_keeps_signature_witness:
  "computeContextSignature \<lparr>level = L2, levelLabel = ''Gentle Prompt''\<rparr>
       \<lparr>fall = 50, cognitive = 0, loneliness = 0, overall = 20\<rparr>
       \<lparr>topFactors = [\<lparr>factor = ''Elevated restlessness'', weight = 0.5\<rparr>], narrative = ''''\<rparr>
       []
     = ''2|Low|Elevated restlessness|none'' \<and>
   list_all quiet
     [Settles 0 (Fulfilled \<lparr>residentMessage = Some (js_string ''Hello''), staffMessage = None, explanationText = js_string ''new''\<rparr>),
      Elapse 1000, TimerFires 0 :: LLMMessageContext event] \<and>
   lastLLMMessages
     (maybeRequestLLM \<lparr>level = L2, levelLabel = ''Gentle Prompt''\<rparr>
        \<lparr>fall = 50, cognitive = 0, loneliness = 0, overall = 20\<rparr>
        \<lparr>topFactors = [\<lparr>factor = ''Elevated restlessness'', weight = 0.5\<rparr>], narrative = ''''\<rparr>
        (runtime_events
           (maybeRequestLLM \<lparr>level = L1, levelLabel = ''Ambient Cue''\<rparr>
              \<lparr>fall = 0, cognitive = 0, loneliness = 0, overall = 0\<rparr>
              \<lparr>topFactors = [], narrative = ''''\<rparr>
              (initialApp\<lparr>
                 llmConfig := defaultLLMConfig\<lparr>apiKey := ''k'', enabled := True\<rparr>,
                 lastLLMMessages := Some \<lparr>residentMessage = None, staffMessage = None, explanationText = js_string ''old''\<rparr>,
                 llm := run (createLLMController 600)
                   [ForceRequest (fst (buildLLMContext \<lparr>fall = 50, cognitive = 0, loneliness = 0, overall = 20\<rparr> L2 [] initialApp))],
                 prevSignature := ''2|Low|Elevated restlessness|none''\<rparr>))
           [Settles 0 (Fulfilled \<lparr>residentMessage = Some (js_string ''Hello''), staffMessage = None, explanationText = js_string ''new''\<rparr>),
            Elapse 1000, TimerFires 0]))
     = None"
  using level_dip_keeps_signature
    [of "initialApp\<lparr>
                 llmConfig := defaultLLMConfig\<lparr>apiKey := ''k'', enabled := True\<rparr>,
                 lastLLMMessages := Some \<lparr>residentMessage = None, staffMessage = None, explanationText = js_string ''old''\<rparr>,
                 llm := run (createLLMController 600)
                   [ForceRequest (fst (buildLLMContext \<lparr>fall = 50, cognitive = 0, loneliness = 0, overall = 20\<rparr> L2 [] initialApp))],
                 prevSignature := ''2|Low|Elevated restlessness|none''\<rparr>"
        600
        "[ForceRequest (fst (buildLLMContext \<lparr>fall = 50, cognitive = 0, loneliness = 0, overall = 20\<rparr> L2 [] initialApp))]"
        "\<lparr>level = L1, levelLabel = ''Ambient Cue''\<rparr>"
        "[Settles 0 (Fulfilled \<lparr>residentMessage = Some (js_string ''Hello''), staffMessage = None, explanationText = js_string ''new''\<rparr>),
            Elapse 1000, TimerFires 0]"
        "\<lparr>level = L2, levelLabel = ''Gentle Prompt''\<rparr>"
        "\<lparr>fall = 50, cognitive = 0, loneliness = 0, overall = 20\<rparr>"
        "\<lparr>topFactors = [\<lparr>factor = ''Elevated restlessness'', weight = 0.5\<rparr>], narrative = ''''\<rparr>"
        "\<lparr>fall = 0, cognitive = 0, loneliness = 0, overall = 0\<rparr>"
        "\<lparr>topFactors = [], narrative = ''''\<rparr>"]
  by (simp add: app_defs ctl_defs)

end
